theory Spec2Isabelle
  imports Complex_Main "HOL-Library.Sublist" "HOL-Library.Multiset"
begin

section \<open>The product query of the mock API server\<close>

text \<open>
  The repository holds the route handler of \<^verbatim>\<open>GET /api/products\<close> twice: in
  \<^verbatim>\<open>src/server.js\<close> (lines 105-162) and in \<^verbatim>\<open>src/unnamed/part_000\<close> (lines 49-102).
  Both are embedded here, constant by constant. The two differ in three places: the first
  copies the stored array before it works on it, guards the read of \<^verbatim>\<open>product.tags\<close>,
  and wraps its body in \<^verbatim>\<open>try\<close>/\<^verbatim>\<open>catch\<close>; the second does none of these.
  The server that runs is the one of \<^verbatim>\<open>server.js\<close>. The module of \<^verbatim>\<open>part_000\<close> calls
  \<^verbatim>\<open>cors\<close> at its line 10 and never declares it, so loading the module throws and no
  request reaches its handler; the handler is embedded as the text it is.
\<close>

subsection \<open>Data\<close>

text \<open>
  A JSON scalar that is compared with \<^verbatim>\<open>===\<close> against a query string: a string or a number.
  JSON numbers are modelled as rationals. The handlers only compare them and look at the sign
  of a difference of two of them, where finite IEEE doubles and rationals agree.
\<close>

datatype js_value = JString string | JNumber rat

record product =
  id_field :: js_value
  categoryId :: js_value
  name :: string
  description :: "string option"
  tags :: "string list option"
  price :: rat
  originalPrice :: rat
  inStock :: bool
  rating :: rat
  createdAt :: string

text \<open>
  \<^verbatim>\<open>req.query\<close>: each of the four parameters is a string, or \<^verbatim>\<open>undefined\<close> (\<open>None\<close>)
  when the URL does not carry it. A parameter that the URL repeats, which the parser hands
  over as an array, is outside the model.
\<close>

record query =
  category_param :: "string option"
  sort_param :: "string option"
  filter_param :: "string option"
  search_param :: "string option"

text \<open>The variable \<^verbatim>\<open>db\<close>: \<^verbatim>\<open>null\<close> (\<open>None\<close>) or an object whose key
  \<^verbatim>\<open>products\<close> may be missing.\<close>

record database =
  db_products :: "product list option"

datatype js_error = TypeError | SyntaxError | SystemError

datatype body = Products "product list" | Error string "js_error option"

text \<open>What a handler does with a request: it sends a status and a JSON body, or an exception
  leaves it (the handler of \<^verbatim>\<open>part_000\<close> has no \<^verbatim>\<open>try\<close>).\<close>

datatype response = Response nat body | Uncaught js_error

text \<open>
  Three functions of the JavaScript runtime are parameters of the model, since the
  repository does not hold them and their results rest on tables of the host (time zones,
  collations, the case mappings of Unicode): the time value of \<^verbatim>\<open>new Date(s)\<close> in
  milliseconds (\<open>None\<close> for an invalid date, whose value is \<^verbatim>\<open>NaN\<close>);
  \<^verbatim>\<open>a.localeCompare(b)\<close>, a negative number, zero or a positive number by the host's
  collation; and \<^verbatim>\<open>s.toLowerCase()\<close>, the lowercase form of a string by the case
  mapping of Unicode. A string is the sequence of its code units, and nothing is assumed of
  \<open>toLowerCase\<close> beyond what a theorem states.
\<close>

record runtime =
  Date_value :: "string \<Rightarrow> int option"
  localeCompare :: "string \<Rightarrow> string \<Rightarrow> int"
  toLowerCase :: "string \<Rightarrow> string"

subsection \<open>Built-in operations\<close>

text \<open>Truthiness of a value that is a string or \<^verbatim>\<open>undefined\<close>, and \<^verbatim>\<open>v || d\<close>.\<close>

definition truthy :: "string option \<Rightarrow> bool" where
  "truthy v = (case v of None \<Rightarrow> False | Some s \<Rightarrow> s \<noteq> [])"

definition or_default :: "string option \<Rightarrow> string \<Rightarrow> string" where
  "or_default v d = (case v of None \<Rightarrow> d | Some s \<Rightarrow> if s = [] then d else s)"

text \<open>\<^verbatim>\<open>v === s\<close> for a string \<open>s\<close>: no conversion, so a number never equals a string.\<close>

definition strict_equals :: "js_value \<Rightarrow> string \<Rightarrow> bool" where
  "strict_equals v s = (case v of JString t \<Rightarrow> t = s | JNumber n \<Rightarrow> False)"

text \<open>\<^verbatim>\<open>s.includes(t)\<close>: \<open>t\<close> occurs in \<open>s\<close> at some position.\<close>

fun String_includes :: "string \<Rightarrow> string \<Rightarrow> bool" where
  "String_includes [] t = (t = [])"
| "String_includes (c # s) t = (prefix t (c # s) \<or> String_includes s t)"

text \<open>\<^verbatim>\<open>xs.some(f)\<close>.\<close>

definition Array_some :: "('a \<Rightarrow> bool) \<Rightarrow> 'a list \<Rightarrow> bool" where
  "Array_some f xs = list_ex f xs"

text \<open>\<^verbatim>\<open>xs.filter(f)\<close> for a callback that may throw: the elements are visited in order and
  the first exception ends the call.\<close>

fun filter_throwing :: "('a \<Rightarrow> js_error + bool) \<Rightarrow> 'a list \<Rightarrow> js_error + 'a list" where
  "filter_throwing f [] = Inr []"
| "filter_throwing f (x # xs) =
     (case f x of
        Inl e \<Rightarrow> Inl e
      | Inr b \<Rightarrow>
          (case filter_throwing f xs of
             Inl e \<Rightarrow> Inl e
           | Inr ys \<Rightarrow> Inr (if b then x # ys else ys)))"

text \<open>
  \<^verbatim>\<open>Array.prototype.sort(comparefn)\<close>. The language standard (since ECMAScript 2019) asks
  for a stable sort, and reads a comparator result of \<^verbatim>\<open>NaN\<close> (\<open>None\<close>) as \<open>+0\<close>. For a
  consistent comparator this fixes the result, which the insertion sort below computes: an
  element is put in front of the first later element that it does not sort after.
\<close>

definition SortCompare :: "('a \<Rightarrow> 'a \<Rightarrow> rat option) \<Rightarrow> 'a \<Rightarrow> 'a \<Rightarrow> rat" where
  "SortCompare comparefn x y = (case comparefn x y of None \<Rightarrow> 0 | Some v \<Rightarrow> v)"

fun insert_sorted :: "('a \<Rightarrow> 'a \<Rightarrow> rat option) \<Rightarrow> 'a \<Rightarrow> 'a list \<Rightarrow> 'a list" where
  "insert_sorted comparefn x [] = [x]"
| "insert_sorted comparefn x (y # ys) =
     (if SortCompare comparefn x y \<le> 0 then x # y # ys
      else y # insert_sorted comparefn x ys)"

definition stable_sort :: "('a \<Rightarrow> 'a \<Rightarrow> rat option) \<Rightarrow> 'a list \<Rightarrow> 'a list" where
  "stable_sort comparefn xs = foldr (insert_sorted comparefn) xs []"

subsection \<open>Arrays and aliasing\<close>

text \<open>
  The handlers hold one array in the variable \<^verbatim>\<open>products\<close>. It is either the very array
  the database stores (\<open>Store_array\<close>: a write through the variable is a write to the
  store) or an array the request made itself, by a copy or by \<^verbatim>\<open>filter\<close>
  (\<open>Own_array\<close>, with its elements). \<^verbatim>\<open>filter\<close> returns a new array; \<^verbatim>\<open>sort\<close> sorts
  the array it is called on, in place. The products themselves are never written, so they
  are values.
\<close>

datatype array_ref = Store_array | Own_array "product list"

definition deref :: "product list \<Rightarrow> array_ref \<Rightarrow> product list" where
  "deref store r = (case r of Store_array \<Rightarrow> store | Own_array xs \<Rightarrow> xs)"

definition spread_copy :: "product list \<Rightarrow> array_ref \<Rightarrow> array_ref" where
  "spread_copy store r = Own_array (deref store r)"

definition Array_filter :: "(product \<Rightarrow> bool) \<Rightarrow> product list \<Rightarrow> array_ref \<Rightarrow> array_ref" where
  "Array_filter f store r = Own_array (filter f (deref store r))"

definition Array_filter_throwing ::
  "(product \<Rightarrow> js_error + bool) \<Rightarrow> product list \<Rightarrow> array_ref \<Rightarrow> js_error + array_ref" where
  "Array_filter_throwing f store r =
     (case filter_throwing f (deref store r) of
        Inl e \<Rightarrow> Inl e
      | Inr ys \<Rightarrow> Inr (Own_array ys))"

definition Array_sort ::
  "(product \<Rightarrow> product \<Rightarrow> rat option) \<Rightarrow> product list \<Rightarrow> array_ref \<Rightarrow> product list \<times> array_ref" where
  "Array_sort comparefn store r =
     (case r of
        Store_array \<Rightarrow> (stable_sort comparefn store, Store_array)
      | Own_array xs \<Rightarrow> (store, Own_array (stable_sort comparefn xs)))"

subsection \<open>The callbacks of the handler\<close>

text \<open>The search callback of \<^verbatim>\<open>server.js\<close> (lines 133-137). \<^verbatim>\<open>||\<close> and \<^verbatim>\<open>&&\<close> evaluate
  from the left and stop early; calling \<^verbatim>\<open>toLowerCase\<close> on a missing description throws.\<close>

definition search_callback :: "runtime \<Rightarrow> string \<Rightarrow> product \<Rightarrow> js_error + bool" where
  "search_callback rt searchLower p =
     (if String_includes (toLowerCase rt (name p)) searchLower then Inr True
      else (case description p of
              None \<Rightarrow> Inl TypeError
            | Some d \<Rightarrow>
                if String_includes (toLowerCase rt d) searchLower then Inr True
                else (case tags p of
                        None \<Rightarrow> Inr False
                      | Some ts \<Rightarrow>
                          Inr (Array_some (\<lambda>tag. String_includes (toLowerCase rt tag) searchLower) ts))))"

text \<open>The search callback of \<^verbatim>\<open>part_000\<close> (lines 77-81): \<^verbatim>\<open>product.tags.some\<close> is called
  with no guard, and throws on missing tags.\<close>

definition search_callback_part_000 ::
  "runtime \<Rightarrow> string \<Rightarrow> product \<Rightarrow> js_error + bool" where
  "search_callback_part_000 rt searchLower p =
     (if String_includes (toLowerCase rt (name p)) searchLower then Inr True
      else (case description p of
              None \<Rightarrow> Inl TypeError
            | Some d \<Rightarrow>
                if String_includes (toLowerCase rt d) searchLower then Inr True
                else (case tags p of
                        None \<Rightarrow> Inl TypeError
                      | Some ts \<Rightarrow>
                          Inr (Array_some (\<lambda>tag. String_includes (toLowerCase rt tag) searchLower) ts))))"

text \<open>The comparator handed to \<^verbatim>\<open>sort\<close> (the same \<^verbatim>\<open>switch\<close> in both files). A difference
  of two dates is \<^verbatim>\<open>NaN\<close> when one of them is invalid.\<close>

definition compare_products :: "runtime \<Rightarrow> string \<Rightarrow> product \<Rightarrow> product \<Rightarrow> rat option" where
  "compare_products rt sortBy a b =
     (if sortBy = ''price-low'' then Some (price a - price b)
      else if sortBy = ''price-high'' then Some (price b - price a)
      else if sortBy = ''rating'' then Some (rating b - rating a)
      else if sortBy = ''newest'' then
        (case Date_value rt (createdAt b) of
           None \<Rightarrow> None
         | Some tb \<Rightarrow>
             (case Date_value rt (createdAt a) of
                None \<Rightarrow> None
              | Some ta \<Rightarrow> Some (of_int (tb - ta))))
      else Some (of_int (localeCompare rt (name a) (name b))))"

subsection \<open>The steps of the handler\<close>

text \<open>\<^verbatim>\<open>// Filter by category\<close> (the same lines in both files). An empty string is falsy, so
  the test \<^verbatim>\<open>categoryId && categoryId !== 'all'\<close> holds for a non-empty string other than
  \<^verbatim>\<open>'all'\<close>; \<open>the\<close> is applied under that test only. The source's variable
  \<^verbatim>\<open>categoryId\<close> is \<open>category\<close> here, \<open>categoryId\<close> being the field of a product.\<close>

definition filter_by_category :: "string option \<Rightarrow> product list \<Rightarrow> array_ref \<Rightarrow> array_ref" where
  "filter_by_category category store products =
     (if truthy category \<and> category \<noteq> Some ''all''
      then Array_filter (\<lambda>p. strict_equals (categoryId p) (the category)) store products
      else products)"

text \<open>\<^verbatim>\<open>// Filter by availability\<close> (the same lines in both files).\<close>

definition filter_by_availability :: "string \<Rightarrow> product list \<Rightarrow> array_ref \<Rightarrow> array_ref" where
  "filter_by_availability filterBy store products =
     (if filterBy = ''in-stock'' then Array_filter (\<lambda>p. inStock p) store products
      else if filterBy = ''on-sale''
      then Array_filter (\<lambda>p. price p < originalPrice p) store products
      else products)"

text \<open>\<^verbatim>\<open>// Search functionality\<close>, of \<^verbatim>\<open>server.js\<close> and of \<^verbatim>\<open>part_000\<close>.\<close>

definition search_products ::
  "runtime \<Rightarrow> string option \<Rightarrow> product list \<Rightarrow> array_ref \<Rightarrow> js_error + array_ref" where
  "search_products rt search store products =
     (if truthy search
      then Array_filter_throwing (search_callback rt (toLowerCase rt (the search))) store products
      else Inr products)"

definition search_products_part_000 ::
  "runtime \<Rightarrow> string option \<Rightarrow> product list \<Rightarrow> array_ref \<Rightarrow> js_error + array_ref" where
  "search_products_part_000 rt search store products =
     (if truthy search
      then Array_filter_throwing (search_callback_part_000 rt (toLowerCase rt (the search)))
             store products
      else Inr products)"

text \<open>\<^verbatim>\<open>// Sort products\<close> (the same lines in both files).\<close>

definition sort_products ::
  "runtime \<Rightarrow> string \<Rightarrow> product list \<Rightarrow> array_ref \<Rightarrow> product list \<times> array_ref" where
  "sort_products rt sortBy store products =
     Array_sort (compare_products rt sortBy) store products"

subsection \<open>The handlers\<close>

text \<open>\<^verbatim>\<open>GET /api/products\<close> of \<^verbatim>\<open>server.js\<close>. The result is the response and the
  database after the request. An exception in the body is caught and answered with 500.\<close>

definition get_api_products ::
  "runtime \<Rightarrow> database option \<Rightarrow> query \<Rightarrow> response \<times> database option" where
  "get_api_products rt db q =
     (let category = category_param q;
          sortBy = or_default (sort_param q) ''name'';
          filterBy = or_default (filter_param q) ''all'';
          search = search_param q
      in case db of
           None \<Rightarrow> (Response 500 (Error ''Database not loaded'' None), db)
         | Some d \<Rightarrow>
             (case db_products d of
                None \<Rightarrow> (Response 500 (Error ''Database not loaded'' None), db)
              | Some store \<Rightarrow>
                  (let products0 = spread_copy store Store_array;
                       products1 = filter_by_category category store products0;
                       products2 = filter_by_availability filterBy store products1
                   in case search_products rt search store products2 of
                        Inl e \<Rightarrow>
                          (Response 500 (Error ''Internal server error'' (Some e)), db)
                      | Inr products3 \<Rightarrow>
                          (case sort_products rt sortBy store products3 of
                             (store', products4) \<Rightarrow>
                               (Response 200 (Products (deref store' products4)),
                                Some (d\<lparr>db_products := Some store'\<rparr>))))))"

text \<open>
  \<^verbatim>\<open>GET /api/products\<close> of \<^verbatim>\<open>part_000\<close>. \<^verbatim>\<open>db.get('products').value()\<close> hands out
  the stored array itself, or \<^verbatim>\<open>undefined\<close> when the key is missing; then the first method
  call on it (at the latest \<^verbatim>\<open>products.sort\<close>) throws, before anything is written.
\<close>

definition get_api_products_part_000 ::
  "runtime \<Rightarrow> database option \<Rightarrow> query \<Rightarrow> response \<times> database option" where
  "get_api_products_part_000 rt db q =
     (let category = category_param q;
          sortBy = or_default (sort_param q) ''name'';
          filterBy = or_default (filter_param q) ''all'';
          search = search_param q
      in case db of
           None \<Rightarrow> (Response 500 (Error ''Database not loaded'' None), db)
         | Some d \<Rightarrow>
             (case db_products d of
                None \<Rightarrow> (Uncaught TypeError, db)
              | Some store \<Rightarrow>
                  (let products0 = Store_array;
                       products1 = filter_by_category category store products0;
                       products2 = filter_by_availability filterBy store products1
                   in case search_products_part_000 rt search store products2 of
                        Inl e \<Rightarrow> (Uncaught e, db)
                      | Inr products3 \<Rightarrow>
                          (case sort_products rt sortBy store products3 of
                             (store', products4) \<Rightarrow>
                               (Response 200 (Products (deref store' products4)),
                                Some (d\<lparr>db_products := Some store'\<rparr>))))))"



text \<open>The array that \<^verbatim>\<open>products\<close> refers to once \<^verbatim>\<open>products.sort\<close> has run.\<close>

definition products_after_sort ::
  "runtime \<Rightarrow> string \<Rightarrow> product list \<Rightarrow> array_ref \<Rightarrow> product list" where
  "products_after_sort rt sortBy store products =
     (case sort_products rt sortBy store products of (store', products') \<Rightarrow> deref store' products')"

subsection \<open>The specification's search rule\<close>

text \<open>
  Section 4.1 of the specification, in its own words: a product is retained when the
  lowercase search string is a substring of the lowercased name, or of the lowercased
  description, or of any lowercased entry of the tags. \<open>sublist\<close> is the library's
  contiguous-substring relation.
\<close>

definition spec_search_match :: "runtime \<Rightarrow> string \<Rightarrow> product \<Rightarrow> bool" where
  "spec_search_match rt s p =
     (sublist (toLowerCase rt s) (toLowerCase rt (name p)) \<or>
      (\<exists>d\<in>set_option (description p). sublist (toLowerCase rt s) (toLowerCase rt d)) \<or>
      (\<exists>ts\<in>set_option (tags p). \<exists>tag\<in>set ts. sublist (toLowerCase rt s) (toLowerCase rt tag)))"

text \<open>
  What the language standard asks of a comparator for the order of the sorted array to be
  defined (a consistent comparator), said of \<^verbatim>\<open>localeCompare\<close>: a string equals itself,
  swapping the arguments swaps the sign, and the order is transitive. Every collation of a
  host is one; the sorting theorems assume it of the runtime they are given.
\<close>

definition consistent_collation :: "(string \<Rightarrow> string \<Rightarrow> int) \<Rightarrow> bool" where
  "consistent_collation lc =
     ((\<forall>a. lc a a = 0) \<and>
      (\<forall>a b. (lc a b < 0) = (0 < lc b a)) \<and>
      (\<forall>a b c. lc a b \<le> 0 \<and> lc b c \<le> 0 \<longrightarrow> lc a c \<le> 0))"

subsection \<open>Sample data\<close>

text \<open>The two products of the examples in section 8 of the specification; they carry
  neither a description nor tags.\<close>

definition zeta :: product where
  "zeta = \<lparr>id_field = JNumber 1, categoryId = JString ''a'', name = ''Zeta'',
            description = None, tags = None, price = 50, originalPrice = 50,
            inStock = True, rating = 3, createdAt = ''2023-01-01''\<rparr>"

definition alpha :: product where
  "alpha = \<lparr>id_field = JNumber 2, categoryId = JString ''a'', name = ''Alpha'',
             description = None, tags = None, price = 20, originalPrice = 40,
             inStock = False, rating = 4, createdAt = ''2023-06-01''\<rparr>"

text \<open>Two products with a description; the second has no tags and the rating of the first.\<close>

definition widget :: product where
  "widget = \<lparr>id_field = JNumber 3, categoryId = JString ''tools'', name = ''Blue Widget'',
              description = Some ''A sturdy widget'', tags = Some [''Hardware'', ''blue''],
              price = 1999 / 100, originalPrice = 2499 / 100,
              inStock = True, rating = 9 / 2, createdAt = ''2023-03-15''\<rparr>"

definition gadget :: product where
  "gadget = \<lparr>id_field = JString ''g-4'', categoryId = JNumber 7, name = ''Gadget'',
              description = Some ''Pocket tool'', tags = None,
              price = 5, originalPrice = 5,
              inStock = False, rating = 9 / 2, createdAt = ''2023-01-01''\<rparr>"

text \<open>A runtime for the examples: strings are compared code unit by code unit, and three
  dates have their time value (milliseconds since 1970, UTC); any other string is an
  invalid date.\<close>

fun sample_localeCompare :: "string \<Rightarrow> string \<Rightarrow> int" where
  "sample_localeCompare [] [] = 0"
| "sample_localeCompare [] (y # ys) = - 1"
| "sample_localeCompare (x # xs) [] = 1"
| "sample_localeCompare (x # xs) (y # ys) =
     (if x = y then sample_localeCompare xs ys
      else if (of_char x :: nat) < of_char y then - 1 else 1)"

definition sample_Date_value :: "string \<Rightarrow> int option" where
  "sample_Date_value s =
     (if s = ''2023-01-01'' then Some 1672531200000
      else if s = ''2023-03-15'' then Some 1678838400000
      else if s = ''2023-06-01'' then Some 1685577600000
      else None)"

text \<open>The sample runtime lowercases the letters A to Z and keeps every other code unit;
  this is how \<^verbatim>\<open>toLowerCase\<close> acts on the strings of the examples, which are ASCII.\<close>

definition lower_char :: "char \<Rightarrow> char" where
  "lower_char c =
     (let n = (of_char c :: nat) in if 65 \<le> n \<and> n \<le> 90 then char_of (n + 32) else c)"

definition sample_toLowerCase :: "string \<Rightarrow> string" where
  "sample_toLowerCase s = map lower_char s"

definition sample_runtime :: runtime where
  "sample_runtime = \<lparr>Date_value = sample_Date_value, localeCompare = sample_localeCompare,
                      toLowerCase = sample_toLowerCase\<rparr>"

definition empty_query :: query where
  "empty_query = \<lparr>category_param = None, sort_param = None, filter_param = None,
                   search_param = None\<rparr>"

section \<open>Properties of the built-in operations\<close>

lemma String_includes_sublist: "String_includes s t = sublist t s"
  by (induction s) (auto simp: sublist_Cons_right)

lemma filter_throwing_total:
  "\<forall>x\<in>set xs. \<exists>b. f x = Inr b \<Longrightarrow>
   filter_throwing f xs = Inr (filter (\<lambda>x. f x = Inr True) xs)"
  by (induction xs) auto

lemma filter_throwing_Inr:
  "filter_throwing f xs = Inr ys \<Longrightarrow> ys = filter (\<lambda>x. f x = Inr True) xs"
  by (induction xs arbitrary: ys) (auto split: sum.splits if_splits)

subsection \<open>The sort is a permutation, sorts, and is stable\<close>

lemma mset_insert_sorted: "mset (insert_sorted c x ys) = add_mset x (mset ys)"
  by (induction ys) auto

lemma set_insert_sorted: "set (insert_sorted c x ys) = insert x (set ys)"
  using mset_insert_sorted [of c x ys] by (metis set_mset_add_mset_insert set_mset_mset)

lemma sorted_insert_sorted:
  assumes "sorted_wrt (\<lambda>a b. SortCompare c a b \<le> 0) ys"
    and "\<forall>y\<in>set ys. SortCompare c x y \<le> 0 \<or> SortCompare c y x \<le> 0"
    and "\<forall>y\<in>set ys. \<forall>z\<in>set ys.
           SortCompare c x y \<le> 0 \<and> SortCompare c y z \<le> 0 \<longrightarrow> SortCompare c x z \<le> 0"
  shows "sorted_wrt (\<lambda>a b. SortCompare c a b \<le> 0) (insert_sorted c x ys)"
proof -
  define le where "le = (\<lambda>a b. SortCompare c a b \<le> 0)"
  have ins: "insert_sorted c x (y # ys) =
      (if le x y then x # y # ys else y # insert_sorted c x ys)" for y ys
    by (simp add: le_def)
  have "sorted_wrt le ys \<Longrightarrow> \<forall>y\<in>set ys. le x y \<or> le y x \<Longrightarrow>
        \<forall>y\<in>set ys. \<forall>z\<in>set ys. le x y \<and> le y z \<longrightarrow> le x z \<Longrightarrow>
        sorted_wrt le (insert_sorted c x ys)"
  proof (induction ys)
    case Nil
    then show ?case by simp
  next
    case (Cons y ys)
    have sorted_tl: "sorted_wrt le ys" and y_le: "\<forall>z\<in>set ys. le y z"
      using Cons.prems(1) by simp_all
    show ?case
    proof (cases "le x y")
      case True
      have "\<forall>z\<in>set ys. le x z"
      proof
        fix z assume z: "z \<in> set ys"
        then have "le y z" using y_le by blast
        with True z Cons.prems(3) show "le x z" by (meson list.set_intros)
      qed
      with True Cons.prems(1) show ?thesis by (simp add: ins del: insert_sorted.simps)
    next
      case False
      then have yx: "le y x" using Cons.prems(2) by (meson list.set_intros(1))
      have "sorted_wrt le (insert_sorted c x ys)"
      proof (rule Cons.IH [OF sorted_tl])
        show "\<forall>y\<in>set ys. le x y \<or> le y x"
          using Cons.prems(2) by (meson list.set_intros(2))
        show "\<forall>y\<in>set ys. \<forall>z\<in>set ys. le x y \<and> le y z \<longrightarrow> le x z"
          using Cons.prems(3) by (meson list.set_intros(2))
      qed
      moreover have "\<forall>z\<in>set (insert_sorted c x ys). le y z"
        using yx y_le by (simp add: set_insert_sorted)
      ultimately show ?thesis using False by (simp add: ins del: insert_sorted.simps)
    qed
  qed
  then show ?thesis using assms unfolding le_def by blast
qed

lemma stable_sort_Cons: "stable_sort c (x # xs) = insert_sorted c x (stable_sort c xs)"
  by (simp add: stable_sort_def)

lemma mset_stable_sort: "mset (stable_sort c xs) = mset xs"
  by (induction xs) (simp_all add: stable_sort_def mset_insert_sorted)

lemma set_stable_sort: "set (stable_sort c xs) = set xs"
  using mset_stable_sort [of c xs] by (metis set_mset_mset)

lemma sorted_stable_sort_rel:
  fixes le :: "'a \<Rightarrow> 'a \<Rightarrow> bool"
  assumes le: "le = (\<lambda>a b. SortCompare c a b \<le> 0)"
  shows "\<forall>a\<in>set xs. \<forall>b\<in>set xs. le a b \<or> le b a \<Longrightarrow>
         \<forall>a\<in>set xs. \<forall>b\<in>set xs. \<forall>d\<in>set xs. le a b \<and> le b d \<longrightarrow> le a d \<Longrightarrow>
         sorted_wrt le (stable_sort c xs)"
proof (induction xs)
  case Nil
  show ?case by (simp add: stable_sort_def)
next
  case (Cons x xs)
  have step: "sorted_wrt le ys \<Longrightarrow> \<forall>y\<in>set ys. le x y \<or> le y x \<Longrightarrow>
      \<forall>y\<in>set ys. \<forall>z\<in>set ys. le x y \<and> le y z \<longrightarrow> le x z \<Longrightarrow>
      sorted_wrt le (insert_sorted c x ys)" for ys
    unfolding le by (rule sorted_insert_sorted)
  have "\<forall>a\<in>set xs. \<forall>b\<in>set xs. le a b \<or> le b a"
    using Cons.prems(1) unfolding list.set by blast
  moreover have "\<forall>a\<in>set xs. \<forall>b\<in>set xs. \<forall>d\<in>set xs. le a b \<and> le b d \<longrightarrow> le a d"
    using Cons.prems(2) unfolding list.set by blast
  ultimately have "sorted_wrt le (stable_sort c xs)"
    by (rule Cons.IH)
  moreover have "\<forall>y\<in>set (stable_sort c xs). le x y \<or> le y x"
    using Cons.prems(1) unfolding set_stable_sort list.set by blast
  moreover have "\<forall>y\<in>set (stable_sort c xs). \<forall>z\<in>set (stable_sort c xs).
                   le x y \<and> le y z \<longrightarrow> le x z"
    using Cons.prems(2) unfolding set_stable_sort list.set by blast
  ultimately have "sorted_wrt le (insert_sorted c x (stable_sort c xs))"
    by (rule step)
  then show ?case by (simp only: stable_sort_Cons)
qed

lemma sorted_stable_sort:
  assumes "\<forall>a\<in>set xs. \<forall>b\<in>set xs. SortCompare c a b \<le> 0 \<or> SortCompare c b a \<le> 0"
    and "\<forall>a\<in>set xs. \<forall>b\<in>set xs. \<forall>d\<in>set xs.
           SortCompare c a b \<le> 0 \<and> SortCompare c b d \<le> 0 \<longrightarrow> SortCompare c a d \<le> 0"
  shows "sorted_wrt (\<lambda>a b. SortCompare c a b \<le> 0) (stable_sort c xs)"
proof (rule sorted_stable_sort_rel [OF refl])
  show "\<forall>a\<in>set xs. \<forall>b\<in>set xs. SortCompare c a b \<le> 0 \<or> SortCompare c b a \<le> 0"
    by (rule assms(1))
  show "\<forall>a\<in>set xs. \<forall>b\<in>set xs. \<forall>d\<in>set xs.
           SortCompare c a b \<le> 0 \<and> SortCompare c b d \<le> 0 \<longrightarrow> SortCompare c a d \<le> 0"
    by (rule assms(2))
qed

lemma stable_insert_sorted:
  assumes "\<forall>y\<in>set ys. SortCompare c p x = 0 \<and> SortCompare c p y = 0 \<longrightarrow> SortCompare c x y \<le> 0"
  shows "filter (\<lambda>y. SortCompare c p y = 0) (insert_sorted c x ys) =
         filter (\<lambda>y. SortCompare c p y = 0) (x # ys)"
proof -
  define le where "le = (\<lambda>a b. SortCompare c a b \<le> 0)"
  define eq where "eq = (\<lambda>y. SortCompare c p y = 0)"
  have ins: "insert_sorted c x (y # ys) =
      (if le x y then x # y # ys else y # insert_sorted c x ys)" for y ys
    by (simp add: le_def)
  have "\<forall>y\<in>set ys. eq x \<and> eq y \<longrightarrow> le x y \<Longrightarrow>
        filter eq (insert_sorted c x ys) = filter eq (x # ys)"
  proof (induction ys)
    case Nil
    then show ?case by simp
  next
    case (Cons y ys)
    have IH: "filter eq (insert_sorted c x ys) = filter eq (x # ys)"
    proof (rule Cons.IH)
      show "\<forall>y\<in>set ys. eq x \<and> eq y \<longrightarrow> le x y"
        using Cons.prems unfolding list.set by blast
    qed
    show ?case
    proof (cases "le x y")
      case True
      then show ?thesis by (simp add: ins del: insert_sorted.simps)
    next
      case False
      then have "\<not> (eq x \<and> eq y)" using Cons.prems unfolding list.set by blast
      with False IH show ?thesis
        by (auto simp add: ins simp del: insert_sorted.simps)
    qed
  qed
  then show ?thesis using assms unfolding le_def eq_def by blast
qed

lemma stable_stable_sort:
  assumes "\<forall>x\<in>set xs. \<forall>y\<in>set xs.
             SortCompare c p x = 0 \<and> SortCompare c p y = 0 \<longrightarrow> SortCompare c x y \<le> 0"
  shows "filter (\<lambda>y. SortCompare c p y = 0) (stable_sort c xs) =
         filter (\<lambda>y. SortCompare c p y = 0) xs"
  using assms
proof (induction xs)
  case Nil
  show ?case by (simp add: stable_sort_def)
next
  case (Cons x xs)
  have "\<forall>x\<in>set xs. \<forall>y\<in>set xs.
          SortCompare c p x = 0 \<and> SortCompare c p y = 0 \<longrightarrow> SortCompare c x y \<le> 0"
    using Cons.prems unfolding list.set by blast
  then have IH: "filter (\<lambda>y. SortCompare c p y = 0) (stable_sort c xs) =
            filter (\<lambda>y. SortCompare c p y = 0) xs"
    by (rule Cons.IH)
  have "filter (\<lambda>y. SortCompare c p y = 0) (insert_sorted c x (stable_sort c xs)) =
        filter (\<lambda>y. SortCompare c p y = 0) (x # stable_sort c xs)"
  proof (rule stable_insert_sorted)
    show "\<forall>y\<in>set (stable_sort c xs).
            SortCompare c p x = 0 \<and> SortCompare c p y = 0 \<longrightarrow> SortCompare c x y \<le> 0"
      using Cons.prems unfolding set_stable_sort list.set by blast
  qed
  also have "\<dots> = filter (\<lambda>y. SortCompare c p y = 0) (x # xs)"
    by (simp only: filter.simps IH)
  finally show ?case by (simp only: stable_sort_Cons)
qed

lemma key_comparator_sorted:
  fixes k :: "'a \<Rightarrow> rat"
  assumes "\<forall>a\<in>set xs. \<forall>b\<in>set xs. SortCompare c a b = k a - k b"
  shows "sorted_wrt (\<lambda>a b. k a \<le> k b) (stable_sort c xs)"
proof -
  have le: "(SortCompare c a b \<le> 0) = (k a \<le> k b)" if "a \<in> set xs" "b \<in> set xs" for a b
    using assms that by simp
  have "sorted_wrt (\<lambda>a b. SortCompare c a b \<le> 0) (stable_sort c xs)"
  proof (rule sorted_stable_sort)
    show "\<forall>a\<in>set xs. \<forall>b\<in>set xs. SortCompare c a b \<le> 0 \<or> SortCompare c b a \<le> 0"
    proof (intro ballI)
      fix a b assume "a \<in> set xs" "b \<in> set xs"
      then show "SortCompare c a b \<le> 0 \<or> SortCompare c b a \<le> 0"
        unfolding le [OF \<open>a \<in> set xs\<close> \<open>b \<in> set xs\<close>] le [OF \<open>b \<in> set xs\<close> \<open>a \<in> set xs\<close>]
        by (rule_tac linear)
    qed
    show "\<forall>a\<in>set xs. \<forall>b\<in>set xs. \<forall>d\<in>set xs.
           SortCompare c a b \<le> 0 \<and> SortCompare c b d \<le> 0 \<longrightarrow> SortCompare c a d \<le> 0"
    proof (intro ballI impI)
      fix a b d assume m: "a \<in> set xs" "b \<in> set xs" "d \<in> set xs"
        and "SortCompare c a b \<le> 0 \<and> SortCompare c b d \<le> 0"
      then have "k a \<le> k b" "k b \<le> k d"
        using le by blast+
      then have "k a \<le> k d" by (rule order_trans)
      then show "SortCompare c a d \<le> 0" using le m by blast
    qed
  qed
  then show ?thesis
  proof (rule sorted_wrt_mono_rel [rotated])
    fix a b assume "a \<in> set (stable_sort c xs)" "b \<in> set (stable_sort c xs)"
      and "SortCompare c a b \<le> 0"
    then show "k a \<le> k b" using le unfolding set_stable_sort by blast
  qed
qed

lemma key_comparator_stable:
  fixes k :: "'a \<Rightarrow> rat"
  assumes "\<forall>a\<in>set xs. \<forall>b\<in>set xs. SortCompare c a b = k a - k b" and "p \<in> set xs"
  shows "filter (\<lambda>y. SortCompare c p y = 0) (stable_sort c xs) =
         filter (\<lambda>y. SortCompare c p y = 0) xs"
proof (rule stable_stable_sort, intro ballI impI)
  fix x y assume m: "x \<in> set xs" "y \<in> set xs"
    and e: "SortCompare c p x = 0 \<and> SortCompare c p y = 0"
  have "k p - k x = 0" "k p - k y = 0"
    using assms m e by auto
  then have "k x - k y = 0" by simp
  then show "SortCompare c x y \<le> 0" using assms(1) m by simp
qed

subsection \<open>Consistent collations\<close>

lemma collation_total:
  assumes "consistent_collation lc"
  shows "lc a b \<le> 0 \<or> lc b a \<le> 0"
proof (cases "lc a b \<le> 0")
  case False
  then have "0 < lc a b" by simp
  then have "lc b a < 0"
    using assms unfolding consistent_collation_def by blast
  then show ?thesis by simp
qed simp

lemma collation_trans:
  assumes "consistent_collation lc" and "lc a b \<le> 0" and "lc b c \<le> 0"
  shows "lc a c \<le> 0"
  using assms unfolding consistent_collation_def by blast

lemma collation_sym:
  assumes "consistent_collation lc" and "lc a b = 0"
  shows "lc b a = 0"
proof -
  have "\<not> lc a b < 0" "\<not> 0 < lc a b" using assms(2) by simp_all
  then have "\<not> 0 < lc b a" "\<not> lc b a < 0"
    using assms(1) unfolding consistent_collation_def by blast+
  then show ?thesis by simp
qed

lemma sample_localeCompare_refl: "sample_localeCompare a a = 0"
  by (induction a) simp_all

lemma sample_localeCompare_swap:
  "(sample_localeCompare a b < 0) = (0 < sample_localeCompare b a)"
proof (induction a b rule: sample_localeCompare.induct)
  case (4 x xs y ys)
  have "x \<noteq> y \<Longrightarrow> (of_char x :: nat) \<noteq> of_char y" by simp
  then show ?case using 4 by (cases "x = y") auto
qed simp_all

lemma sample_localeCompare_trans:
  "sample_localeCompare a b \<le> 0 \<Longrightarrow> sample_localeCompare b c \<le> 0 \<Longrightarrow>
   sample_localeCompare a c \<le> 0"
proof (induction a arbitrary: b c)
  case Nil
  show ?case by (cases c) simp_all
next
  case (Cons x xs)
  obtain y ys where b: "b = y # ys"
    using Cons.prems(1) by (cases b) simp_all
  obtain z zs where c: "c = z # zs"
    using Cons.prems(2) unfolding b by (cases c) simp_all
  have xy: "(x = y \<and> sample_localeCompare xs ys \<le> 0) \<or> (of_char x :: nat) < of_char y"
    using Cons.prems(1) unfolding b by (simp split: if_splits)
  have yz: "(y = z \<and> sample_localeCompare ys zs \<le> 0) \<or> (of_char y :: nat) < of_char z"
    using Cons.prems(2) unfolding b c by (simp split: if_splits)
  from xy yz consider
      (eq) "x = y" "y = z" "sample_localeCompare xs ys \<le> 0" "sample_localeCompare ys zs \<le> 0"
    | (less) "(of_char x :: nat) < of_char z"
    by force
  then show ?case
  proof cases
    case eq
    have "sample_localeCompare xs zs \<le> 0"
      using eq(3) eq(4) by (rule Cons.IH)
    then show ?thesis unfolding c using eq(1) eq(2) by simp
  next
    case less
    then have "x \<noteq> z" by auto
    then show ?thesis unfolding c using less by simp
  qed
qed

lemma consistent_sample_localeCompare: "consistent_collation sample_localeCompare"
  unfolding consistent_collation_def
  using sample_localeCompare_refl sample_localeCompare_swap sample_localeCompare_trans
  by blast

section \<open>Properties of the steps\<close>

subsection \<open>The comparator\<close>

lemma SortCompare_price_low:
  "SortCompare (compare_products rt ''price-low'') a b = price a - price b"
  by (simp add: SortCompare_def compare_products_def)

lemma SortCompare_price_high:
  "SortCompare (compare_products rt ''price-high'') a b = price b - price a"
  by (simp add: SortCompare_def compare_products_def)

lemma SortCompare_rating:
  "SortCompare (compare_products rt ''rating'') a b = rating b - rating a"
  by (simp add: SortCompare_def compare_products_def)

lemma SortCompare_newest:
  "Date_value rt (createdAt a) = Some ta \<Longrightarrow> Date_value rt (createdAt b) = Some tb \<Longrightarrow>
   SortCompare (compare_products rt ''newest'') a b = of_int (tb - ta)"
  by (simp add: SortCompare_def compare_products_def)

lemma compare_products_default:
  "sortBy \<noteq> ''price-low'' \<Longrightarrow> sortBy \<noteq> ''price-high'' \<Longrightarrow> sortBy \<noteq> ''rating'' \<Longrightarrow>
   sortBy \<noteq> ''newest'' \<Longrightarrow>
   compare_products rt sortBy = (\<lambda>a b. Some (of_int (localeCompare rt (name a) (name b))))"
  by (simp add: compare_products_def fun_eq_iff)

lemma compare_products_zero_iff:
  "(SortCompare (compare_products rt ''price-low'') a b = 0) = (price a = price b)"
  "(SortCompare (compare_products rt ''price-high'') a b = 0) = (price a = price b)"
  "(SortCompare (compare_products rt ''rating'') a b = 0) = (rating a = rating b)"
  by (auto simp: SortCompare_price_low SortCompare_price_high SortCompare_rating)

text \<open>The key of the \<^verbatim>\<open>newest\<close> order: the negated time value.\<close>

lemma newest_key:
  assumes "\<forall>p\<in>set xs. Date_value rt (createdAt p) \<noteq> None"
  shows "\<forall>a\<in>set xs. \<forall>b\<in>set xs.
           SortCompare (compare_products rt ''newest'') a b =
             (case Date_value rt (createdAt a) of None \<Rightarrow> 0 | Some t \<Rightarrow> - of_int t) -
             (case Date_value rt (createdAt b) of None \<Rightarrow> 0 | Some t \<Rightarrow> - of_int t)"
proof (intro ballI)
  fix a b assume "a \<in> set xs" "b \<in> set xs"
  then obtain ta tb where "Date_value rt (createdAt a) = Some ta"
    "Date_value rt (createdAt b) = Some tb"
    using assms by fastforce
  then show "SortCompare (compare_products rt ''newest'') a b =
             (case Date_value rt (createdAt a) of None \<Rightarrow> 0 | Some t \<Rightarrow> - of_int t) -
             (case Date_value rt (createdAt b) of None \<Rightarrow> 0 | Some t \<Rightarrow> - of_int t)"
    by (simp add: SortCompare_newest)
qed

lemma name_comparator_sorted:
  assumes "consistent_collation (localeCompare rt)"
    and "sortBy \<notin> {''price-low'', ''price-high'', ''rating'', ''newest''}"
  shows "sorted_wrt (\<lambda>a b. localeCompare rt (name a) (name b) \<le> 0)
           (stable_sort (compare_products rt sortBy) xs)"
proof -
  have c: "SortCompare (compare_products rt sortBy) a b =
           of_int (localeCompare rt (name a) (name b))" for a b
    using assms(2) by (simp add: SortCompare_def compare_products_def)
  have le: "(SortCompare (compare_products rt sortBy) a b \<le> 0) =
            (localeCompare rt (name a) (name b) \<le> 0)" for a b
    unfolding c by simp
  have "sorted_wrt (\<lambda>a b. SortCompare (compare_products rt sortBy) a b \<le> 0)
          (stable_sort (compare_products rt sortBy) xs)"
  proof (rule sorted_stable_sort)
    show "\<forall>a\<in>set xs. \<forall>b\<in>set xs. SortCompare (compare_products rt sortBy) a b \<le> 0 \<or>
            SortCompare (compare_products rt sortBy) b a \<le> 0"
      unfolding le using collation_total [OF assms(1)] by blast
    show "\<forall>a\<in>set xs. \<forall>b\<in>set xs. \<forall>d\<in>set xs.
            SortCompare (compare_products rt sortBy) a b \<le> 0 \<and>
            SortCompare (compare_products rt sortBy) b d \<le> 0 \<longrightarrow>
            SortCompare (compare_products rt sortBy) a d \<le> 0"
      unfolding le using collation_trans [OF assms(1)] by blast
  qed
  then show ?thesis unfolding le .
qed

lemma name_comparator_stable:
  assumes "consistent_collation (localeCompare rt)"
    and "sortBy \<notin> {''price-low'', ''price-high'', ''rating'', ''newest''}"
  shows "filter (\<lambda>y. SortCompare (compare_products rt sortBy) p y = 0)
           (stable_sort (compare_products rt sortBy) xs) =
         filter (\<lambda>y. SortCompare (compare_products rt sortBy) p y = 0) xs"
proof (rule stable_stable_sort, intro ballI impI)
  fix x y
  assume e: "SortCompare (compare_products rt sortBy) p x = 0 \<and>
             SortCompare (compare_products rt sortBy) p y = 0"
  have c: "SortCompare (compare_products rt sortBy) a b =
           of_int (localeCompare rt (name a) (name b))" for a b
    using assms(2) by (simp add: SortCompare_def compare_products_def)
  from e have px: "localeCompare rt (name p) (name x) = 0"
    and py: "localeCompare rt (name p) (name y) = 0"
    unfolding c by simp_all
  have "localeCompare rt (name x) (name p) \<le> 0"
    using collation_sym [OF assms(1) px] by simp
  moreover have "localeCompare rt (name p) (name y) \<le> 0"
    using py by simp
  ultimately have "localeCompare rt (name x) (name y) \<le> 0"
    by (rule collation_trans [OF assms(1)])
  then show "SortCompare (compare_products rt sortBy) x y \<le> 0"
    unfolding c by simp
qed

subsection \<open>What each step leaves in the array\<close>

lemma or_default_None: "or_default None d = d"
  by (simp add: or_default_def)

lemma or_default_other:
  "v \<notin> {Some a, Some b} \<Longrightarrow> d \<noteq> a \<Longrightarrow> d \<noteq> b \<Longrightarrow>
   or_default v d \<noteq> a \<and> or_default v d \<noteq> b"
  by (cases v) (auto simp: or_default_def)

lemma strict_equals_iff: "strict_equals v s = (v = JString s)"
  by (cases v) (auto simp: strict_equals_def)

lemma deref_Own_array: "deref store (Own_array xs) = xs"
  by (simp add: deref_def)

lemma filter_by_category_active:
  "truthy category \<Longrightarrow> category \<noteq> Some ''all'' \<Longrightarrow>
   filter_by_category category store products =
     Own_array (filter (\<lambda>p. categoryId p = JString (the category)) (deref store products))"
  by (simp add: filter_by_category_def Array_filter_def strict_equals_iff)

lemma filter_by_category_inactive:
  "\<not> truthy category \<or> category = Some ''all'' \<Longrightarrow>
   filter_by_category category store products = products"
  by (auto simp: filter_by_category_def)

lemma filter_by_availability_in_stock:
  "filter_by_availability ''in-stock'' store products =
     Own_array (filter inStock (deref store products))"
  by (simp add: filter_by_availability_def Array_filter_def)

lemma filter_by_availability_on_sale:
  "filter_by_availability ''on-sale'' store products =
     Own_array (filter (\<lambda>p. price p < originalPrice p) (deref store products))"
  by (simp add: filter_by_availability_def Array_filter_def)

lemma filter_by_availability_other:
  "filterBy \<noteq> ''in-stock'' \<Longrightarrow> filterBy \<noteq> ''on-sale'' \<Longrightarrow>
   filter_by_availability filterBy store products = products"
  by (simp add: filter_by_availability_def)

lemma filter_by_category_sub:
  "mset (deref store (filter_by_category category store products)) \<subseteq>#
   mset (deref store products)"
  by (simp add: filter_by_category_def Array_filter_def deref_Own_array)

lemma filter_by_availability_sub:
  "mset (deref store (filter_by_availability filterBy store products)) \<subseteq>#
   mset (deref store products)"
  by (simp add: filter_by_availability_def Array_filter_def deref_Own_array)

lemma filtered_sub:
  "mset (deref store (filter_by_availability filterBy store
                        (filter_by_category category store (Own_array store)))) \<subseteq># mset store"
proof -
  have "mset (deref store (filter_by_availability filterBy store
                        (filter_by_category category store (Own_array store)))) \<subseteq>#
        mset (deref store (filter_by_category category store (Own_array store)))"
    by (rule filter_by_availability_sub)
  also have "\<dots> \<subseteq># mset (deref store (Own_array store))"
    by (rule filter_by_category_sub)
  finally show ?thesis by (simp add: deref_Own_array)
qed

lemma search_callback_total:
  "description p \<noteq> None \<Longrightarrow>
   search_callback rt (toLowerCase rt s) p = Inr (spec_search_match rt s p)"
  by (cases "tags p")
     (auto simp: search_callback_def spec_search_match_def String_includes_sublist
                 Array_some_def list_ex_iff)

lemma search_callback_part_000_total:
  "description p \<noteq> None \<Longrightarrow> tags p \<noteq> None \<Longrightarrow>
   search_callback_part_000 rt (toLowerCase rt s) p = Inr (spec_search_match rt s p)"
  by (auto simp: search_callback_part_000_def spec_search_match_def String_includes_sublist
                 Array_some_def list_ex_iff)

lemma search_products_inactive:
  "\<not> truthy search \<Longrightarrow> search_products rt search store products = Inr products"
  by (simp add: search_products_def)

lemma search_products_part_000_inactive:
  "\<not> truthy search \<Longrightarrow> search_products_part_000 rt search store products = Inr products"
  by (simp add: search_products_part_000_def)

lemma search_products_total:
  assumes "search \<noteq> []" and "\<forall>p\<in>set (deref store products). description p \<noteq> None"
  shows "search_products rt (Some search) store products =
           Inr (Own_array (filter (spec_search_match rt search) (deref store products)))"
proof -
  have "filter_throwing (search_callback rt (toLowerCase rt search)) (deref store products) =
        Inr (filter (\<lambda>p. search_callback rt (toLowerCase rt search) p = Inr True)
               (deref store products))"
    by (rule filter_throwing_total) (use assms(2) in \<open>auto simp: search_callback_total\<close>)
  moreover have "filter (\<lambda>p. search_callback rt (toLowerCase rt search) p = Inr True)
                   (deref store products) =
                 filter (spec_search_match rt search) (deref store products)"
    by (rule filter_cong) (use assms(2) in \<open>auto simp: search_callback_total\<close>)
  ultimately show ?thesis
    using assms(1) by (simp add: search_products_def truthy_def Array_filter_throwing_def)
qed

lemma search_products_part_000_total:
  assumes "search \<noteq> []" and "\<forall>p\<in>set (deref store products). description p \<noteq> None"
    and "\<forall>p\<in>set (deref store products). tags p \<noteq> None"
  shows "search_products_part_000 rt (Some search) store products =
           Inr (Own_array (filter (spec_search_match rt search) (deref store products)))"
proof -
  have "filter_throwing (search_callback_part_000 rt (toLowerCase rt search)) (deref store products) =
        Inr (filter (\<lambda>p. search_callback_part_000 rt (toLowerCase rt search) p = Inr True)
               (deref store products))"
    by (rule filter_throwing_total)
       (use assms(2,3) in \<open>auto simp: search_callback_part_000_total\<close>)
  moreover have "filter (\<lambda>p. search_callback_part_000 rt (toLowerCase rt search) p = Inr True)
                   (deref store products) =
                 filter (spec_search_match rt search) (deref store products)"
    by (rule filter_cong) (use assms(2,3) in \<open>auto simp: search_callback_part_000_total\<close>)
  ultimately show ?thesis
    using assms(1)
    by (simp add: search_products_part_000_def truthy_def Array_filter_throwing_def)
qed

lemma search_products_Inr:
  "search_products rt search store products = Inr r \<Longrightarrow>
   set (deref store r) \<subseteq> set (deref store products) \<and>
   length (deref store r) \<le> length (deref store products) \<and>
   mset (deref store r) \<subseteq># mset (deref store products)"
  by (auto simp: search_products_def Array_filter_throwing_def deref_Own_array
           dest!: filter_throwing_Inr split: if_splits sum.splits)

lemma search_products_returns:
  assumes "\<not> truthy search \<or> (\<forall>p\<in>set (deref store products). description p \<noteq> None)"
  shows "\<exists>r. search_products rt search store products = Inr r"
proof (cases "truthy search")
  case False
  then show ?thesis by (simp add: search_products_inactive)
next
  case True
  then obtain s where s: "search = Some s" "s \<noteq> []"
    by (cases search) (auto simp: truthy_def)
  with True assms show ?thesis
    using search_products_total [of s store products] by simp
qed

lemma search_products_lower_cong:
  "s \<noteq> [] \<Longrightarrow> t \<noteq> [] \<Longrightarrow> toLowerCase rt s = toLowerCase rt t \<Longrightarrow>
   search_products rt (Some s) = search_products rt (Some t)"
  by (simp add: search_products_def truthy_def fun_eq_iff)

lemma search_products_part_000_lower_cong:
  "s \<noteq> [] \<Longrightarrow> t \<noteq> [] \<Longrightarrow> toLowerCase rt s = toLowerCase rt t \<Longrightarrow>
   search_products_part_000 rt (Some s) = search_products_part_000 rt (Some t)"
  by (simp add: search_products_part_000_def truthy_def fun_eq_iff)

lemma products_after_sort_eq:
  "products_after_sort rt sortBy store products =
     stable_sort (compare_products rt sortBy) (deref store products)"
  by (cases products)
     (simp_all add: products_after_sort_def sort_products_def Array_sort_def deref_def)

lemma sort_products_Own_array:
  "sort_products rt sortBy store (Own_array xs) =
     (store, Own_array (stable_sort (compare_products rt sortBy) xs))"
  by (simp add: sort_products_def Array_sort_def)

section \<open>Properties of the handlers\<close>

lemma filter_by_category_Own_array:
  "\<exists>ys. filter_by_category category store (Own_array xs) = Own_array ys"
  by (simp add: filter_by_category_def Array_filter_def)

lemma filter_by_availability_Own_array:
  "\<exists>ys. filter_by_availability filterBy store (Own_array xs) = Own_array ys"
  by (simp add: filter_by_availability_def Array_filter_def)

lemma search_products_Own_array:
  "search_products rt search store (Own_array xs) = Inr r \<Longrightarrow> \<exists>ys. r = Own_array ys"
  by (auto simp: search_products_def Array_filter_throwing_def split: if_splits sum.splits)

lemma filtered_Own_array:
  "\<exists>ys. filter_by_availability filterBy store
          (filter_by_category category store (spread_copy store Store_array)) = Own_array ys"
proof -
  obtain xs where "filter_by_category category store (spread_copy store Store_array) = Own_array xs"
    using filter_by_category_Own_array [of category store store]
    by (auto simp: spread_copy_def deref_def)
  then show ?thesis
    using filter_by_availability_Own_array [of filterBy store xs] by simp
qed

text \<open>The response and the database after a request, when the collection is there.\<close>

lemma get_api_products_loaded:
  assumes "db_products d = Some store"
  shows "get_api_products rt (Some d) q =
    (case search_products rt (search_param q) store
            (filter_by_availability (or_default (filter_param q) ''all'') store
               (filter_by_category (category_param q) store (Own_array store))) of
       Inl e \<Rightarrow> (Response 500 (Error ''Internal server error'' (Some e)), Some d)
     | Inr r \<Rightarrow>
         (Response 200
            (Products (stable_sort (compare_products rt (or_default (sort_param q) ''name''))
                         (deref store r))),
          Some d))"
proof -
  let ?r2 = "filter_by_availability (or_default (filter_param q) ''all'') store
               (filter_by_category (category_param q) store (Own_array store))"
  have copy: "spread_copy store Store_array = Own_array store"
    by (simp add: spread_copy_def deref_def)
  obtain xs where r2: "?r2 = Own_array xs"
    using filtered_Own_array [of "or_default (filter_param q) ''all''" store "category_param q"]
    unfolding copy by blast
  have d: "d\<lparr>db_products := Some store\<rparr> = d"
    using assms by simp
  show ?thesis
  proof (cases "search_products rt (search_param q) store ?r2")
    case (Inl e)
    then show ?thesis
      using assms by (simp add: get_api_products_def copy)
  next
    case (Inr r)
    then obtain ys where r: "r = Own_array ys"
      unfolding r2 using search_products_Own_array by blast
    show ?thesis
      using assms Inr
      by (simp add: get_api_products_def copy r sort_products_Own_array deref_Own_array d)
  qed
qed

lemma get_api_products_not_loaded:
  "db = None \<or> (\<exists>d. db = Some d \<and> db_products d = None) \<Longrightarrow>
   get_api_products rt db q = (Response 500 (Error ''Database not loaded'' None), db)"
  by (auto simp: get_api_products_def)

text \<open>The handler of \<^verbatim>\<open>server.js\<close> never writes to the database.\<close>

lemma get_api_products_store_unchanged: "snd (get_api_products rt db q) = db"
proof (cases db)
  case None
  then show ?thesis by (simp add: get_api_products_not_loaded)
next
  case (Some d)
  show ?thesis
  proof (cases "db_products d")
    case None
    then show ?thesis using Some by (simp add: get_api_products_not_loaded)
  next
    case (Some store)
    then show ?thesis
      using \<open>db = Some d\<close> by (simp add: get_api_products_loaded split: sum.splits)
  qed
qed

text \<open>The handler of \<^verbatim>\<open>part_000\<close> when the collection is there.\<close>

lemma get_api_products_part_000_loaded:
  assumes "db_products d = Some store"
  shows "get_api_products_part_000 rt (Some d) q =
    (case search_products_part_000 rt (search_param q) store
            (filter_by_availability (or_default (filter_param q) ''all'') store
               (filter_by_category (category_param q) store Store_array)) of
       Inl e \<Rightarrow> (Uncaught e, Some d)
     | Inr r \<Rightarrow>
         (Response 200
            (Products (stable_sort (compare_products rt (or_default (sort_param q) ''name''))
                         (deref store r))),
          Some (d\<lparr>db_products := Some (fst (sort_products rt (or_default (sort_param q) ''name'')
                                                store r))\<rparr>)))"
proof (cases "search_products_part_000 rt (search_param q) store
            (filter_by_availability (or_default (filter_param q) ''all'') store
               (filter_by_category (category_param q) store Store_array))")
  case (Inl e)
  then show ?thesis using assms by (simp add: get_api_products_part_000_def)
next
  case (Inr r)
  have "deref (fst (sort_products rt sortBy store r)) (snd (sort_products rt sortBy store r)) =
        stable_sort (compare_products rt sortBy) (deref store r)" for sortBy
    using products_after_sort_eq [of rt sortBy store r]
    by (simp add: products_after_sort_def split: prod.splits)
  then have "deref store' r' = stable_sort (compare_products rt sortBy) (deref store r)"
    if "sort_products rt sortBy store r = (store', r')" for sortBy store' r'
    using that by (metis fst_conv snd_conv)
  then show ?thesis
    using assms Inr by (simp add: get_api_products_part_000_def split: prod.splits)
qed

text \<open>The handler text of \<^verbatim>\<open>part_000\<close> takes no copy: were it run with no filter in the
  query, its \<^verbatim>\<open>products.sort\<close> would sort the stored array itself.\<close>

lemma part_000_handler_sorts_the_store:
  "snd (get_api_products_part_000 sample_runtime (Some \<lparr>db_products = Some [zeta, alpha]\<rparr>)
          empty_query) =
   Some \<lparr>db_products = Some [alpha, zeta]\<rparr>"
  by code_simp

text \<open>A request with only a search string, on records that carry a description.\<close>

lemma search_request_answer:
  assumes "s \<noteq> []" and "db_products d = Some store"
    and "\<forall>p\<in>set store. description p \<noteq> None"
  shows "fst (get_api_products rt (Some d) (empty_query\<lparr>search_param := Some s\<rparr>)) =
        Response 200 (Products (stable_sort (compare_products rt ''name'')
                                  (filter (spec_search_match rt s) store)))"
proof -
  have "search_products rt (Some s) store (Own_array store) =
          Inr (Own_array (filter (spec_search_match rt s) store))"
    using search_products_total [of s store "Own_array store" rt] assms(1,3)
    by (simp add: deref_Own_array)
  then show ?thesis
    by (simp add: get_api_products_loaded [OF assms(2)] empty_query_def or_default_None
          filter_by_category_inactive truthy_def filter_by_availability_other
          deref_Own_array)
qed

text \<open>Two search strings with the same lowercase form get the same answer from either
  handler, for every store and every other parameter.\<close>

lemma search_ignores_case:
  assumes "s \<noteq> []" and "t \<noteq> []" and "toLowerCase rt s = toLowerCase rt t"
  shows "get_api_products rt db (q\<lparr>search_param := Some s\<rparr>) =
         get_api_products rt db (q\<lparr>search_param := Some t\<rparr>)"
    and "get_api_products_part_000 rt db (q\<lparr>search_param := Some s\<rparr>) =
         get_api_products_part_000 rt db (q\<lparr>search_param := Some t\<rparr>)"
proof -
  have W: "search_products rt (Some s) = search_products rt (Some t)"
    using assms by (rule search_products_lower_cong)
  have W': "search_products_part_000 rt (Some s) = search_products_part_000 rt (Some t)"
    using assms by (rule search_products_part_000_lower_cong)
  show "get_api_products rt db (q\<lparr>search_param := Some s\<rparr>) =
         get_api_products rt db (q\<lparr>search_param := Some t\<rparr>)"
    by (simp add: get_api_products_def Let_def W cong: option.case_cong)
  show "get_api_products_part_000 rt db (q\<lparr>search_param := Some s\<rparr>) =
         get_api_products_part_000 rt db (q\<lparr>search_param := Some t\<rparr>)"
    by (simp add: get_api_products_part_000_def Let_def W' cong: option.case_cong)
qed

lemma sample_search_ignores_case:
  "get_api_products sample_runtime db (q\<lparr>search_param := Some ''WIDGET''\<rparr>) =
   get_api_products sample_runtime db (q\<lparr>search_param := Some ''widget''\<rparr>)"
proof (rule search_ignores_case(1))
  show "toLowerCase sample_runtime ''WIDGET'' = toLowerCase sample_runtime ''widget''"
    by code_simp
qed simp_all

text \<open>Whenever the handler of \<^verbatim>\<open>server.js\<close> sends a sequence, it is no longer than the
  stored one and each of its elements is an element of the stored one, as often at most. It
  sends a sequence for every store whose records carry a description, and for every store
  when the request has no search string.\<close>

lemma result_is_drawn_from_the_store:
  assumes "db_products d = Some store"
  shows "(\<forall>ys. fst (get_api_products rt (Some d) q) = Response 200 (Products ys) \<longrightarrow>
            length ys \<le> length store \<and> mset ys \<subseteq># mset store \<and> set ys \<subseteq> set store \<and>
            id_field ` set ys \<subseteq> id_field ` set store) \<and>
         (\<not> truthy (search_param q) \<or> (\<forall>p\<in>set store. description p \<noteq> None) \<longrightarrow>
            (\<exists>ys. fst (get_api_products rt (Some d) q) = Response 200 (Products ys)))"
proof -
  let ?r2 = "filter_by_availability (or_default (filter_param q) ''all'') store
               (filter_by_category (category_param q) store (Own_array store))"
  have r2: "mset (deref store ?r2) \<subseteq># mset store"
    by (rule filtered_sub)
  have bounds: "length ys \<le> length store \<and> mset ys \<subseteq># mset store \<and> set ys \<subseteq> set store \<and>
            id_field ` set ys \<subseteq> id_field ` set store"
    if "fst (get_api_products rt (Some d) q) = Response 200 (Products ys)" for ys
  proof -
    from that obtain r where r: "search_products rt (search_param q) store ?r2 = Inr r"
      and ys: "ys = stable_sort (compare_products rt (or_default (sort_param q) ''name''))
                      (deref store r)"
      by (auto simp: get_api_products_loaded [OF assms] split: sum.splits)
    have "mset (deref store r) \<subseteq># mset (deref store ?r2)"
      using search_products_Inr [OF r] by blast
    then have sub: "mset ys \<subseteq># mset store"
      using r2 unfolding ys mset_stable_sort by (rule subset_mset.order_trans)
    then have "set ys \<subseteq> set store"
      using set_mset_mono by fastforce
    moreover have "length ys \<le> length store"
      using sub size_mset_mono by fastforce
    ultimately show ?thesis using sub by blast
  qed
  have returns: "\<exists>ys. fst (get_api_products rt (Some d) q) = Response 200 (Products ys)"
    if "\<not> truthy (search_param q) \<or> (\<forall>p\<in>set store. description p \<noteq> None)"
  proof -
    have "set (deref store ?r2) \<subseteq> set store"
      using r2 set_mset_mono by fastforce
    with that have "\<not> truthy (search_param q) \<or>
        (\<forall>p\<in>set (deref store ?r2). description p \<noteq> None)"
      by blast
    then obtain r where "search_products rt (search_param q) store ?r2 = Inr r"
      using search_products_returns by blast
    then show ?thesis
      by (simp add: get_api_products_loaded [OF assms])
  qed
  from bounds returns show ?thesis by blast
qed

section \<open>The claims\<close>

text \<open>
  Claim C1. The specification asks the query to be total on collections whose records may
  lack \<^verbatim>\<open>description\<close> or \<^verbatim>\<open>tags\<close>, a missing description counting as the empty
  string. The handler of \<^verbatim>\<open>server.js\<close> guards \<^verbatim>\<open>product.tags\<close> but calls
  \<^verbatim>\<open>toLowerCase\<close> on the description unguarded: on the two products of the
  specification's own examples, which carry no description, the search for \<^verbatim>\<open>zet\<close>
  matches the name of the first, throws on the second, and the request is answered with
  status 500 instead of the first product.
\<close>

theorem search_throws_on_missing_description:
  "fst (get_api_products sample_runtime (Some \<lparr>db_products = Some [zeta, alpha]\<rparr>)
          (empty_query\<lparr>search_param := Some ''zet''\<rparr>)) =
   Response 500 (Error ''Internal server error'' (Some TypeError))"
  by code_simp

text \<open>
  Claim C2. The handler of \<^verbatim>\<open>server.js\<close> leaves the database as it was, for every
  database, query and runtime, whatever it answers. The reason is the copy of its line 116:
  the spread of the stored array is an array of the request's own, the filters hand on
  arrays of the request's own, and \<^verbatim>\<open>sort\<close> on such an array does not write the store.
  What is sent is that array, a new sequence.
\<close>

theorem query_leaves_the_store_unchanged:
  "snd (get_api_products rt db q) = db \<and>
   spread_copy store Store_array = Own_array store \<and>
   (\<exists>ys. filter_by_availability filterBy store
           (filter_by_category category store (spread_copy store Store_array)) = Own_array ys) \<and>
   fst (sort_products rt sortBy store (Own_array xs)) = store"
proof -
  have "snd (get_api_products rt db q) = db"
    by (rule get_api_products_store_unchanged)
  moreover have "spread_copy store Store_array = Own_array store"
    by (simp add: spread_copy_def deref_def)
  moreover have "\<exists>ys. filter_by_availability filterBy store
           (filter_by_category category store (spread_copy store Store_array)) = Own_array ys"
    by (rule filtered_Own_array)
  moreover have "fst (sort_products rt sortBy store (Own_array xs)) = store"
    by (simp add: sort_products_Own_array)
  ultimately show ?thesis by blast
qed

theorem query_leaves_the_store_unchanged_witness:
  "get_api_products sample_runtime (Some \<lparr>db_products = Some [zeta, alpha]\<rparr>) empty_query =
     (Response 200 (Products [alpha, zeta]), Some \<lparr>db_products = Some [zeta, alpha]\<rparr>)"
proof -
  let ?db = "Some \<lparr>db_products = Some [zeta, alpha]\<rparr>"
  have "fst (get_api_products sample_runtime ?db empty_query) =
          Response 200 (Products [alpha, zeta])"
    by code_simp
  moreover have "snd (get_api_products sample_runtime ?db empty_query) = ?db"
    using query_leaves_the_store_unchanged [of sample_runtime ?db empty_query] by blast
  ultimately show ?thesis
    by (simp add: prod_eq_iff)
qed

text \<open>Claim C3. The specification's rule (\<open>spec_search_match\<close>) keeps a product when the
  lowercased search string is a substring of the lowercased name, or of the lowercased
  description, or of a lowercased tag, and the claim asks the search step to keep exactly
  those products of every sequence. On the store of the specification's section 8, whose
  records carry no description, the rule keeps the second product for the search string
  \<^verbatim>\<open>ALP\<close>. The step of \<^verbatim>\<open>server.js\<close> reads the description of the first product,
  whose name does not match, and throws; the request is answered with status 500. This is
  the unguarded read of claim C1. On records that carry a description the step keeps
  exactly the products of the rule (\<open>search_products_total\<close>).\<close>

theorem search_throws_where_the_rule_matches:
  "search_products sample_runtime (Some ''ALP'') [zeta, alpha] (Own_array [zeta, alpha]) =
     Inl TypeError \<and>
   filter (spec_search_match sample_runtime ''ALP'') [zeta, alpha] = [alpha] \<and>
   fst (get_api_products sample_runtime (Some \<lparr>db_products = Some [zeta, alpha]\<rparr>)
          (empty_query\<lparr>search_param := Some ''ALP''\<rparr>)) =
     Response 500 (Error ''Internal server error'' (Some TypeError))"
  by code_simp

text \<open>Claim C4. After \<^verbatim>\<open>products.sort\<close> (the same step in both handlers) the array holds
  the same products as before, in
  order: ascending by price for \<^verbatim>\<open>price-low\<close>, descending by price for \<^verbatim>\<open>price-high\<close>,
  descending by rating for \<^verbatim>\<open>rating\<close>, descending by the time value of \<^verbatim>\<open>createdAt\<close>
  for \<^verbatim>\<open>newest\<close> (when every \<^verbatim>\<open>createdAt\<close> is a valid date), and ascending by
  \<^verbatim>\<open>localeCompare\<close> on the name for every other key (for a consistent collation). A
  \<^verbatim>\<open>sort\<close> parameter that is absent or is none of the four keys selects the comparator of
  \<^verbatim>\<open>name\<close>. A request with only a \<^verbatim>\<open>sort\<close> parameter is answered with the sorted store,
  in the order of the key it names when it names one, and the empty query with all products
  in ascending order of their names.\<close>

theorem sort_orders_by_the_requested_key:
  "mset (products_after_sort rt sortBy store products) = mset (deref store products) \<and>
   (sortBy = ''price-low'' \<longrightarrow>
      sorted_wrt (\<lambda>a b. price a \<le> price b) (products_after_sort rt sortBy store products)) \<and>
   (sortBy = ''price-high'' \<longrightarrow>
      sorted_wrt (\<lambda>a b. price b \<le> price a) (products_after_sort rt sortBy store products)) \<and>
   (sortBy = ''rating'' \<longrightarrow>
      sorted_wrt (\<lambda>a b. rating b \<le> rating a) (products_after_sort rt sortBy store products)) \<and>
   (sortBy = ''newest'' \<and> (\<forall>p\<in>set (deref store products). Date_value rt (createdAt p) \<noteq> None) \<longrightarrow>
      sorted_wrt (\<lambda>a b. \<forall>ta tb. Date_value rt (createdAt a) = Some ta \<and>
                                  Date_value rt (createdAt b) = Some tb \<longrightarrow> tb \<le> ta)
        (products_after_sort rt sortBy store products)) \<and>
   (sortBy \<notin> {''price-low'', ''price-high'', ''rating'', ''newest''} \<and>
    consistent_collation (localeCompare rt) \<longrightarrow>
      sorted_wrt (\<lambda>a b. localeCompare rt (name a) (name b) \<le> 0)
        (products_after_sort rt sortBy store products)) \<and>
   (v \<notin> {Some ''price-low'', Some ''price-high'', Some ''rating'', Some ''newest''} \<longrightarrow>
      compare_products rt (or_default v ''name'') = compare_products rt ''name'') \<and>
   (db_products d = Some store \<longrightarrow>
      fst (get_api_products rt (Some d) (empty_query\<lparr>sort_param := v\<rparr>)) =
        Response 200 (Products (products_after_sort rt (or_default v ''name'') store
                                  (Own_array store)))) \<and>
   (db_products d = Some store \<and> k \<noteq> [] \<longrightarrow>
      fst (get_api_products rt (Some d) (empty_query\<lparr>sort_param := Some k\<rparr>)) =
        Response 200 (Products (products_after_sort rt k store (Own_array store)))) \<and>
   (db_products d = Some store \<and> consistent_collation (localeCompare rt) \<longrightarrow>
      (\<exists>ys. fst (get_api_products rt (Some d) empty_query) = Response 200 (Products ys) \<and>
            mset ys = mset store \<and>
            sorted_wrt (\<lambda>a b. localeCompare rt (name a) (name b) \<le> 0) ys))"
proof -
  let ?xs = "deref store products"
  let ?ys = "products_after_sort rt sortBy store products"
  have ys: "?ys = stable_sort (compare_products rt sortBy) ?xs"
    by (rule products_after_sort_eq)
  have 1: "mset ?ys = mset ?xs"
    unfolding ys by (rule mset_stable_sort)
  have 2: "sorted_wrt (\<lambda>a b. price a \<le> price b) ?ys" if "sortBy = ''price-low''"
    unfolding that products_after_sort_eq
    by (rule key_comparator_sorted) (simp add: SortCompare_price_low)
  have 3: "sorted_wrt (\<lambda>a b. price b \<le> price a) ?ys" if "sortBy = ''price-high''"
  proof -
    have "sorted_wrt (\<lambda>a b. - price a \<le> - price b)
            (stable_sort (compare_products rt ''price-high'') ?xs)"
      by (rule key_comparator_sorted) (simp add: SortCompare_price_high)
    then show ?thesis unfolding that products_after_sort_eq by simp
  qed
  have 4: "sorted_wrt (\<lambda>a b. rating b \<le> rating a) ?ys" if "sortBy = ''rating''"
  proof -
    have "sorted_wrt (\<lambda>a b. - rating a \<le> - rating b)
            (stable_sort (compare_products rt ''rating'') ?xs)"
      by (rule key_comparator_sorted) (simp add: SortCompare_rating)
    then show ?thesis unfolding that products_after_sort_eq by simp
  qed
  have 5: "sorted_wrt (\<lambda>a b. \<forall>ta tb. Date_value rt (createdAt a) = Some ta \<and>
                                  Date_value rt (createdAt b) = Some tb \<longrightarrow> tb \<le> ta) ?ys"
    if "sortBy = ''newest''" and valid: "\<forall>p\<in>set ?xs. Date_value rt (createdAt p) \<noteq> None"
  proof -
    let ?k = "\<lambda>p. case Date_value rt (createdAt p) of None \<Rightarrow> 0 | Some t \<Rightarrow> - rat_of_int t"
    have "sorted_wrt (\<lambda>a b. ?k a \<le> ?k b) (stable_sort (compare_products rt ''newest'') ?xs)"
      by (rule key_comparator_sorted) (rule newest_key [OF valid])
    then show ?thesis
      unfolding that(1) products_after_sort_eq
    proof (rule sorted_wrt_mono_rel [rotated])
      fix a b assume "?k a \<le> ?k b"
      then show "\<forall>ta tb. Date_value rt (createdAt a) = Some ta \<and>
                   Date_value rt (createdAt b) = Some tb \<longrightarrow> tb \<le> ta"
        by auto
    qed
  qed
  have 6: "sorted_wrt (\<lambda>a b. localeCompare rt (name a) (name b) \<le> 0) ?ys"
    if "sortBy \<notin> {''price-low'', ''price-high'', ''rating'', ''newest''}"
      and "consistent_collation (localeCompare rt)"
    unfolding ys using that(2,1) by (rule name_comparator_sorted)
  have 7: "compare_products rt (or_default v ''name'') = compare_products rt ''name''"
    if "v \<notin> {Some ''price-low'', Some ''price-high'', Some ''rating'', Some ''newest''}"
  proof -
    have "or_default v ''name'' \<noteq> ''price-low''" "or_default v ''name'' \<noteq> ''price-high''"
      "or_default v ''name'' \<noteq> ''rating''" "or_default v ''name'' \<noteq> ''newest''"
      using that by (cases v; simp add: or_default_def)+
    then have "compare_products rt (or_default v ''name'') =
        (\<lambda>a b. Some (of_int (localeCompare rt (name a) (name b))))"
      by (rule compare_products_default)
    also have "\<dots> = compare_products rt ''name''"
      by (rule compare_products_default [symmetric]) simp_all
    finally show ?thesis .
  qed
  have 8: "fst (get_api_products rt (Some d) (empty_query\<lparr>sort_param := v\<rparr>)) =
        Response 200 (Products (products_after_sort rt (or_default v ''name'') store
                                  (Own_array store)))"
    if "db_products d = Some store" for v
    by (simp add: get_api_products_loaded [OF that] empty_query_def or_default_None
          filter_by_category_inactive truthy_def filter_by_availability_other
          search_products_inactive products_after_sort_eq deref_Own_array)
  have 9: "\<exists>ys. fst (get_api_products rt (Some d) empty_query) = Response 200 (Products ys) \<and>
            mset ys = mset store \<and>
            sorted_wrt (\<lambda>a b. localeCompare rt (name a) (name b) \<le> 0) ys"
    if loaded: "db_products d = Some store" and "consistent_collation (localeCompare rt)"
  proof -
    have "empty_query\<lparr>sort_param := None\<rparr> = empty_query"
      by (simp add: empty_query_def)
    then have "fst (get_api_products rt (Some d) empty_query) =
        Response 200 (Products (stable_sort (compare_products rt ''name'') store))"
      using 8 [OF loaded, of None]
      by (simp add: or_default_None products_after_sort_eq deref_Own_array)
    moreover have "mset (stable_sort (compare_products rt ''name'') store) = mset store"
      by (rule mset_stable_sort)
    moreover have "sorted_wrt (\<lambda>a b. localeCompare rt (name a) (name b) \<le> 0)
                     (stable_sort (compare_products rt ''name'') store)"
      using that(2) by (rule name_comparator_sorted) simp
    ultimately show ?thesis by blast
  qed
  have 10: "fst (get_api_products rt (Some d) (empty_query\<lparr>sort_param := Some k\<rparr>)) =
        Response 200 (Products (products_after_sort rt k store (Own_array store)))"
    if "db_products d = Some store" and "k \<noteq> []"
    using 8 [OF that(1), of "Some k"] that(2) by (simp add: or_default_def)
  show ?thesis
    by (intro conjI impI; (elim conjE)?; (rule 1 2 3 4 5 6 7 8 10 9; assumption))
qed

theorem sort_orders_by_the_requested_key_witness:
  "products_after_sort sample_runtime ''newest'' [zeta, alpha, widget, gadget] Store_array =
     [alpha, widget, zeta, gadget] \<and>
   fst (get_api_products sample_runtime
          (Some \<lparr>db_products = Some [zeta, alpha, widget, gadget]\<rparr>)
          (empty_query\<lparr>sort_param := Some ''price-high''\<rparr>)) =
     Response 200 (Products [zeta, alpha, widget, gadget]) \<and>
   sorted_wrt (\<lambda>a b. \<forall>ta tb. Date_value sample_runtime (createdAt a) = Some ta \<and>
                               Date_value sample_runtime (createdAt b) = Some tb \<longrightarrow> tb \<le> ta)
     [alpha, widget, zeta, gadget] \<and>
   (\<exists>ys. fst (get_api_products sample_runtime
                (Some \<lparr>db_products = Some [zeta, alpha, widget, gadget]\<rparr>) empty_query) =
           Response 200 (Products ys) \<and>
         mset ys = mset [zeta, alpha, widget, gadget] \<and>
         sorted_wrt (\<lambda>a b. localeCompare sample_runtime (name a) (name b) \<le> 0) ys)"
proof -
  let ?store = "[zeta, alpha, widget, gadget]"
  let ?d = "\<lparr>db_products = Some ?store\<rparr>"
  have d: "db_products ?d = Some ?store" by simp
  have e: "products_after_sort sample_runtime ''newest'' ?store Store_array =
             [alpha, widget, zeta, gadget]"
    by code_simp
  have valid: "\<forall>p\<in>set (deref ?store Store_array).
                 Date_value sample_runtime (createdAt p) \<noteq> None"
    by (simp add: deref_def zeta_def alpha_def widget_def gadget_def sample_runtime_def
          sample_Date_value_def)
  have consistent: "consistent_collation (localeCompare sample_runtime)"
    by (simp add: sample_runtime_def consistent_sample_localeCompare)
  note T = sort_orders_by_the_requested_key
             [of sample_runtime "''newest''" ?store Store_array None ?d "''price-high''"]
  have e_high: "products_after_sort sample_runtime ''price-high'' ?store (Own_array ?store) =
                  [zeta, alpha, widget, gadget]"
    by code_simp
  have by_key: "fst (get_api_products sample_runtime (Some ?d)
                       (empty_query\<lparr>sort_param := Some ''price-high''\<rparr>)) =
                  Response 200 (Products [zeta, alpha, widget, gadget])"
    using T d unfolding e_high by simp
  have sorted_newest:
    "sorted_wrt (\<lambda>a b. \<forall>ta tb. Date_value sample_runtime (createdAt a) = Some ta \<and>
                               Date_value sample_runtime (createdAt b) = Some tb \<longrightarrow> tb \<le> ta)
       (products_after_sort sample_runtime ''newest'' ?store Store_array)"
    using T valid by simp
  have by_name:
    "\<exists>ys. fst (get_api_products sample_runtime (Some ?d) empty_query) =
            Response 200 (Products ys) \<and>
          mset ys = mset ?store \<and>
          sorted_wrt (\<lambda>a b. localeCompare sample_runtime (name a) (name b) \<le> 0) ys"
    using T d consistent by simp
  show ?thesis
    using e sorted_newest by_key by_name by simp
qed

text \<open>Claim C5. For a product \<open>p\<close> of the array, the products that the selected
  comparator rates equal to \<open>p\<close> (for the three numeric keys: those with the key of \<open>p\<close>)
  stand after \<^verbatim>\<open>products.sort\<close> in the order in which they stood before it, the order
  the filters left. This holds for every value of the sort key; for \<^verbatim>\<open>newest\<close> every
  \<^verbatim>\<open>createdAt\<close> has to be a valid date, and for the keys that compare names the collation
  has to be consistent. It is a property of the sort the language standard prescribes
  since 2019, of which \<open>stable_sort\<close> is the model.\<close>

theorem sort_is_stable:
  assumes "p \<in> set (deref store products)"
    and "sortBy = ''newest'' \<longrightarrow>
           (\<forall>p\<in>set (deref store products). Date_value rt (createdAt p) \<noteq> None)"
    and "sortBy \<notin> {''price-low'', ''price-high'', ''rating'', ''newest''} \<longrightarrow>
           consistent_collation (localeCompare rt)"
  shows "filter (\<lambda>y. SortCompare (compare_products rt sortBy) p y = 0)
           (products_after_sort rt sortBy store products) =
         filter (\<lambda>y. SortCompare (compare_products rt sortBy) p y = 0)
           (deref store products)"
proof -
  let ?xs = "deref store products"
  consider (low) "sortBy = ''price-low''" | (high) "sortBy = ''price-high''"
    | (rating) "sortBy = ''rating''" | (newest) "sortBy = ''newest''"
    | (name) "sortBy \<notin> {''price-low'', ''price-high'', ''rating'', ''newest''}"
    by blast
  then show ?thesis
  proof cases
    case low
    show ?thesis
      unfolding low products_after_sort_eq
    proof (rule key_comparator_stable [OF _ assms(1)])
      show "\<forall>a\<in>set ?xs. \<forall>b\<in>set ?xs.
              SortCompare (compare_products rt ''price-low'') a b = price a - price b"
        by (simp add: SortCompare_price_low)
    qed
  next
    case high
    show ?thesis
      unfolding high products_after_sort_eq
    proof (rule key_comparator_stable [OF _ assms(1)])
      show "\<forall>a\<in>set ?xs. \<forall>b\<in>set ?xs.
              SortCompare (compare_products rt ''price-high'') a b = - price a - - price b"
        by (simp add: SortCompare_price_high)
    qed
  next
    case rating
    show ?thesis
      unfolding rating products_after_sort_eq
    proof (rule key_comparator_stable [OF _ assms(1)])
      show "\<forall>a\<in>set ?xs. \<forall>b\<in>set ?xs.
              SortCompare (compare_products rt ''rating'') a b = - rating a - - rating b"
        by (simp add: SortCompare_rating)
    qed
  next
    case newest
    then have valid: "\<forall>p\<in>set ?xs. Date_value rt (createdAt p) \<noteq> None"
      using assms(2) by blast
    show ?thesis
      unfolding newest products_after_sort_eq
      by (rule key_comparator_stable [OF newest_key [OF valid] assms(1)])
  next
    case name
    then have "consistent_collation (localeCompare rt)"
      using assms(3) by blast
    then show ?thesis
      unfolding products_after_sort_eq using name by (rule name_comparator_stable)
  qed
qed

theorem sort_is_stable_witness:
  "products_after_sort sample_runtime ''rating'' [zeta, gadget, alpha, widget] Store_array =
     [gadget, widget, alpha, zeta] \<and>
   filter (\<lambda>y. SortCompare (compare_products sample_runtime ''rating'') gadget y = 0)
     [gadget, widget, alpha, zeta] = [gadget, widget] \<and>
   filter (\<lambda>y. SortCompare (compare_products sample_runtime ''rating'') gadget y = 0)
     (deref [zeta, gadget, alpha, widget] Store_array) = [gadget, widget] \<and>
   products_after_sort sample_runtime ''newest'' [zeta, gadget, alpha, widget] Store_array =
     [alpha, widget, zeta, gadget] \<and>
   filter (\<lambda>y. SortCompare (compare_products sample_runtime ''newest'') zeta y = 0)
     [alpha, widget, zeta, gadget] = [zeta, gadget] \<and>
   filter (\<lambda>y. SortCompare (compare_products sample_runtime ''newest'') zeta y = 0)
     (deref [zeta, gadget, alpha, widget] Store_array) = [zeta, gadget]"
proof -
  let ?store = "[zeta, gadget, alpha, widget]"
  have e: "products_after_sort sample_runtime ''rating'' ?store Store_array =
             [gadget, widget, alpha, zeta]"
    by code_simp
  have f: "filter (\<lambda>y. SortCompare (compare_products sample_runtime ''rating'') gadget y = 0)
             (deref ?store Store_array) = [gadget, widget]"
    by code_simp
  have p: "gadget \<in> set (deref ?store Store_array)"
    by (simp add: deref_def)
  have n: "''rating'' = ''newest'' \<longrightarrow>
           (\<forall>p\<in>set (deref ?store Store_array). Date_value sample_runtime (createdAt p) \<noteq> None)"
    by simp
  have c: "''rating'' \<notin> {''price-low'', ''price-high'', ''rating'', ''newest''} \<longrightarrow>
           consistent_collation (localeCompare sample_runtime)"
    by simp
  have e': "products_after_sort sample_runtime ''newest'' ?store Store_array =
             [alpha, widget, zeta, gadget]"
    by code_simp
  have f': "filter (\<lambda>y. SortCompare (compare_products sample_runtime ''newest'') zeta y = 0)
             (deref ?store Store_array) = [zeta, gadget]"
    by code_simp
  have p': "zeta \<in> set (deref ?store Store_array)"
    by (simp add: deref_def)
  have n': "''newest'' = ''newest'' \<longrightarrow>
           (\<forall>p\<in>set (deref ?store Store_array). Date_value sample_runtime (createdAt p) \<noteq> None)"
    by (simp add: deref_def zeta_def alpha_def widget_def gadget_def sample_runtime_def
          sample_Date_value_def)
  have c': "''newest'' \<notin> {''price-low'', ''price-high'', ''rating'', ''newest''} \<longrightarrow>
           consistent_collation (localeCompare sample_runtime)"
    by simp
  show ?thesis
    using sort_is_stable [OF p n c] sort_is_stable [OF p' n' c'] unfolding e f e' f' by simp
qed

text \<open>Claim C6. The availability step (the same in both handlers) keeps exactly the
  products in stock for \<^verbatim>\<open>in-stock\<close>, exactly those priced below their original price
  for \<^verbatim>\<open>on-sale\<close>, and
  hands back the array it was given for any other value of the parameter, an absent one
  included; end to end, a request that carries only this parameter is answered with status
  200 and the kept products in the order of their names.\<close>

theorem availability_filter_retains:
  "deref store (filter_by_availability ''in-stock'' store products) =
     filter inStock (deref store products) \<and>
   deref store (filter_by_availability ''on-sale'' store products) =
     filter (\<lambda>p. price p < originalPrice p) (deref store products) \<and>
   (v \<notin> {Some ''in-stock'', Some ''on-sale''} \<longrightarrow>
      filter_by_availability (or_default v ''all'') store products = products) \<and>
   (db_products d = Some store \<longrightarrow>
      fst (get_api_products rt (Some d) (empty_query\<lparr>filter_param := Some ''in-stock''\<rparr>)) =
        Response 200 (Products (stable_sort (compare_products rt ''name'')
                                  (filter inStock store))) \<and>
      fst (get_api_products rt (Some d) (empty_query\<lparr>filter_param := Some ''on-sale''\<rparr>)) =
        Response 200 (Products (stable_sort (compare_products rt ''name'')
                                  (filter (\<lambda>p. price p < originalPrice p) store)))) \<and>
   (db_products d = Some store \<and> v \<notin> {Some ''in-stock'', Some ''on-sale''} \<longrightarrow>
      fst (get_api_products rt (Some d) (empty_query\<lparr>filter_param := v\<rparr>)) =
        Response 200 (Products (stable_sort (compare_products rt ''name'') store)))"
proof -
  have other: "filter_by_availability (or_default v ''all'') s r = r"
    if "v \<notin> {Some ''in-stock'', Some ''on-sale''}" for s r
  proof (rule filter_by_availability_other)
    show "or_default v ''all'' \<noteq> ''in-stock''"
      using or_default_other [OF that, of "''all''"] by simp
    show "or_default v ''all'' \<noteq> ''on-sale''"
      using or_default_other [OF that, of "''all''"] by simp
  qed
  have 1: "deref store (filter_by_availability ''in-stock'' store products) =
     filter inStock (deref store products)"
    by (simp add: filter_by_availability_in_stock deref_Own_array)
  have 2: "deref store (filter_by_availability ''on-sale'' store products) =
     filter (\<lambda>p. price p < originalPrice p) (deref store products)"
    by (simp add: filter_by_availability_on_sale deref_Own_array)
  have 4: "fst (get_api_products rt (Some d) (empty_query\<lparr>filter_param := Some ''in-stock''\<rparr>)) =
        Response 200 (Products (stable_sort (compare_products rt ''name'')
                                  (filter inStock store)))"
    if "db_products d = Some store"
    by (simp add: get_api_products_loaded [OF that] empty_query_def or_default_def
          filter_by_category_inactive truthy_def search_products_inactive
          filter_by_availability_in_stock deref_Own_array)
  have 5: "fst (get_api_products rt (Some d) (empty_query\<lparr>filter_param := Some ''on-sale''\<rparr>)) =
        Response 200 (Products (stable_sort (compare_products rt ''name'')
                                  (filter (\<lambda>p. price p < originalPrice p) store)))"
    if "db_products d = Some store"
    by (simp add: get_api_products_loaded [OF that] empty_query_def or_default_def
          filter_by_category_inactive truthy_def search_products_inactive
          filter_by_availability_on_sale deref_Own_array)
  have 6: "fst (get_api_products rt (Some d) (empty_query\<lparr>filter_param := v\<rparr>)) =
        Response 200 (Products (stable_sort (compare_products rt ''name'') store))"
    if "db_products d = Some store" and "v \<notin> {Some ''in-stock'', Some ''on-sale''}"
    by (simp add: get_api_products_loaded [OF that(1)] empty_query_def other [OF that(2)]
          or_default_None filter_by_category_inactive truthy_def search_products_inactive
          deref_Own_array)
  from 1 2 other 4 5 6 show ?thesis by blast
qed

theorem availability_filter_retains_witness:
  "fst (get_api_products sample_runtime (Some \<lparr>db_products = Some [zeta, alpha, widget, gadget]\<rparr>)
          (empty_query\<lparr>filter_param := Some ''on-sale''\<rparr>)) =
     Response 200 (Products [alpha, widget]) \<and>
   fst (get_api_products sample_runtime (Some \<lparr>db_products = Some [zeta, alpha, widget, gadget]\<rparr>)
          (empty_query\<lparr>filter_param := Some ''bogus''\<rparr>)) =
     Response 200 (Products [alpha, widget, gadget, zeta])"
proof -
  let ?d = "\<lparr>db_products = Some [zeta, alpha, widget, gadget]\<rparr>"
  have d: "db_products ?d = Some [zeta, alpha, widget, gadget]" by simp
  have v: "Some ''bogus'' \<notin> {Some ''in-stock'', Some ''on-sale''}" by simp
  have e1: "stable_sort (compare_products sample_runtime ''name'')
              (filter (\<lambda>p. price p < originalPrice p) [zeta, alpha, widget, gadget]) =
            [alpha, widget]"
    by code_simp
  have e2: "stable_sort (compare_products sample_runtime ''name'') [zeta, alpha, widget, gadget] =
            [alpha, widget, gadget, zeta]"
    by code_simp
  show ?thesis
    using availability_filter_retains
            [of "[zeta, alpha, widget, gadget]" Store_array "Some ''bogus''" ?d sample_runtime]
          d v
    by (simp only: e1 e2 simp_thms)
qed

text \<open>Claim C7, as amended. The category step (the same in both handlers) compares with
  \<^verbatim>\<open>===\<close>, and it runs only
  for a parameter that is a non-empty string other than \<^verbatim>\<open>all\<close>: then exactly the
  products whose \<^verbatim>\<open>categoryId\<close> is that string are kept (a numeric \<^verbatim>\<open>categoryId\<close> never
  is); for an absent parameter, the empty string and \<^verbatim>\<open>all\<close> the step hands back the
  array it was given. End to end, a request that carries only this parameter is answered with
  status 200 and the kept products in the order of their names.\<close>

theorem category_filter_retains:
  "(c \<noteq> [] \<and> c \<noteq> ''all'' \<longrightarrow>
      deref store (filter_by_category (Some c) store products) =
        filter (\<lambda>p. categoryId p = JString c) (deref store products)) \<and>
   (category \<in> {None, Some [], Some ''all''} \<longrightarrow>
      filter_by_category category store products = products) \<and>
   (db_products d = Some store \<and> c \<noteq> [] \<and> c \<noteq> ''all'' \<longrightarrow>
      fst (get_api_products rt (Some d) (empty_query\<lparr>category_param := Some c\<rparr>)) =
        Response 200 (Products (stable_sort (compare_products rt ''name'')
                                  (filter (\<lambda>p. categoryId p = JString c) store)))) \<and>
   (db_products d = Some store \<and> category \<in> {None, Some [], Some ''all''} \<longrightarrow>
      fst (get_api_products rt (Some d) (empty_query\<lparr>category_param := category\<rparr>)) =
        Response 200 (Products (stable_sort (compare_products rt ''name'') store)))"
proof -
  have active: "filter_by_category (Some c) s r =
      Own_array (filter (\<lambda>p. categoryId p = JString c) (deref s r))"
    if "c \<noteq> []" and "c \<noteq> ''all''" for s r
    using that by (simp add: filter_by_category_active truthy_def)
  have inactive: "filter_by_category category s r = r"
    if "category \<in> {None, Some [], Some ''all''}" for s r
    using that by (auto simp: filter_by_category_def truthy_def)
  have 1: "deref store (filter_by_category (Some c) store products) =
        filter (\<lambda>p. categoryId p = JString c) (deref store products)"
    if "c \<noteq> []" and "c \<noteq> ''all''"
    by (simp add: active [OF that] deref_Own_array)
  have 3: "fst (get_api_products rt (Some d) (empty_query\<lparr>category_param := Some c\<rparr>)) =
        Response 200 (Products (stable_sort (compare_products rt ''name'')
                                  (filter (\<lambda>p. categoryId p = JString c) store)))"
    if "db_products d = Some store" and "c \<noteq> []" and "c \<noteq> ''all''"
    by (simp add: get_api_products_loaded [OF that(1)] empty_query_def or_default_None
          active [OF that(2,3)] filter_by_availability_other search_products_inactive
          truthy_def deref_Own_array)
  have 4: "fst (get_api_products rt (Some d) (empty_query\<lparr>category_param := category\<rparr>)) =
        Response 200 (Products (stable_sort (compare_products rt ''name'') store))"
    if "db_products d = Some store" and "category \<in> {None, Some [], Some ''all''}"
    by (simp add: get_api_products_loaded [OF that(1)] empty_query_def or_default_None
          inactive [OF that(2)] filter_by_availability_other search_products_inactive
          truthy_def deref_Own_array)
  from 1 inactive 3 4 show ?thesis by blast
qed

theorem category_filter_retains_witness:
  "fst (get_api_products sample_runtime (Some \<lparr>db_products = Some [zeta, widget, alpha, gadget]\<rparr>)
          (empty_query\<lparr>category_param := Some ''a''\<rparr>)) =
     Response 200 (Products [alpha, zeta]) \<and>
   fst (get_api_products sample_runtime (Some \<lparr>db_products = Some [zeta, widget, alpha, gadget]\<rparr>)
          (empty_query\<lparr>category_param := Some ''all''\<rparr>)) =
     Response 200 (Products [alpha, widget, gadget, zeta])"
proof -
  let ?d = "\<lparr>db_products = Some [zeta, widget, alpha, gadget]\<rparr>"
  have d: "db_products ?d = Some [zeta, widget, alpha, gadget]" by simp
  have c: "''a'' \<noteq> [] \<and> ''a'' \<noteq> ''all''" by simp
  have v: "Some ''all'' \<in> {None, Some [], Some ''all''}" by simp
  have e1: "stable_sort (compare_products sample_runtime ''name'')
              (filter (\<lambda>p. categoryId p = JString ''a'') [zeta, widget, alpha, gadget]) =
            [alpha, zeta]"
    by code_simp
  have e2: "stable_sort (compare_products sample_runtime ''name'') [zeta, widget, alpha, gadget] =
            [alpha, widget, gadget, zeta]"
    by code_simp
  show ?thesis
    using category_filter_retains
            [of "''a''" "[zeta, widget, alpha, gadget]" Store_array "Some ''all''" ?d
                sample_runtime]
          d c v
    by (simp only: e1 e2 simp_thms)
qed

text \<open>Claim C7 as the specification words it asks a parameter that is present and is not
  \<^verbatim>\<open>all\<close> to keep exactly the products with that \<^verbatim>\<open>categoryId\<close>. For the empty string
  (\<^verbatim>\<open>GET /api/products?category=\<close>) no product of the sample store qualifies, and the
  handler answers with both.\<close>

theorem category_empty_string_counterexample:
  "fst (get_api_products sample_runtime (Some \<lparr>db_products = Some [zeta, alpha]\<rparr>)
          (empty_query\<lparr>category_param := Some ''''\<rparr>)) =
     Response 200 (Products [alpha, zeta]) \<and>
   filter (\<lambda>p. strict_equals (categoryId p) '''') [zeta, alpha] = []"
  by code_simp

text \<open>Claim C8. The claim asks that every request is answered with a sequence drawn from
  the store, never with nothing. Whenever the handler of \<^verbatim>\<open>server.js\<close> sends a sequence,
  it is drawn from the store (\<open>result_is_drawn_from_the_store\<close>). On the store of the
  specification's section 8 and the search string \<^verbatim>\<open>x\<close> it sends none: no name matches,
  the missing description of the first product is read, and the answer is the error object
  with status 500, where the claim has the empty sequence. This is the unguarded read of
  claim C1.\<close>

theorem no_sequence_is_sent_on_missing_description:
  "fst (get_api_products sample_runtime (Some \<lparr>db_products = Some [zeta, alpha]\<rparr>)
          (empty_query\<lparr>search_param := Some ''x''\<rparr>)) =
     Response 500 (Error ''Internal server error'' (Some TypeError)) \<and>
   filter (spec_search_match sample_runtime ''x'') [zeta, alpha] = []"
  by code_simp




text \<open>
  Claim C10. A \<^verbatim>\<open>category\<close> or a \<^verbatim>\<open>search\<close> parameter that is the empty string is
  falsy, so its filter is skipped: the step hands back the array it was given, and the
  request is answered as if the parameter were absent, in both handlers.
\<close>

theorem empty_category_and_search_are_skipped:
  "filter_by_category (Some '''') store products = products \<and>
   search_products rt (Some '''') store products = Inr products \<and>
   search_products_part_000 rt (Some '''') store products = Inr products \<and>
   get_api_products rt db (q\<lparr>category_param := Some ''''\<rparr>) =
     get_api_products rt db (q\<lparr>category_param := None\<rparr>) \<and>
   get_api_products rt db (q\<lparr>search_param := Some ''''\<rparr>) =
     get_api_products rt db (q\<lparr>search_param := None\<rparr>) \<and>
   get_api_products_part_000 rt db (q\<lparr>category_param := Some ''''\<rparr>) =
     get_api_products_part_000 rt db (q\<lparr>category_param := None\<rparr>) \<and>
   get_api_products_part_000 rt db (q\<lparr>search_param := Some ''''\<rparr>) =
     get_api_products_part_000 rt db (q\<lparr>search_param := None\<rparr>)"
proof -
  have cat: "filter_by_category (Some '''') s r = filter_by_category None s r" for s r
    by (simp add: filter_by_category_def truthy_def)
  have search: "search_products rt (Some '''') s r = search_products rt None s r" for s r
    by (simp add: search_products_def truthy_def)
  have search': "search_products_part_000 rt (Some '''') s r = search_products_part_000 rt None s r"
    for s r
    by (simp add: search_products_part_000_def truthy_def)
  have "filter_by_category (Some '''') store products = products"
    by (simp add: filter_by_category_def truthy_def)
  moreover have "search_products rt (Some '''') store products = Inr products"
    by (simp add: search_products_def truthy_def)
  moreover have "search_products_part_000 rt (Some '''') store products = Inr products"
    by (simp add: search_products_part_000_def truthy_def)
  moreover have "get_api_products rt db (q\<lparr>category_param := Some ''''\<rparr>) =
      get_api_products rt db (q\<lparr>category_param := None\<rparr>)"
    by (simp add: get_api_products_def Let_def cat cong: option.case_cong)
  moreover have "get_api_products rt db (q\<lparr>search_param := Some ''''\<rparr>) =
      get_api_products rt db (q\<lparr>search_param := None\<rparr>)"
    by (simp add: get_api_products_def Let_def search cong: option.case_cong)
  moreover have "get_api_products_part_000 rt db (q\<lparr>category_param := Some ''''\<rparr>) =
      get_api_products_part_000 rt db (q\<lparr>category_param := None\<rparr>)"
    by (simp add: get_api_products_part_000_def Let_def cat cong: option.case_cong)
  moreover have "get_api_products_part_000 rt db (q\<lparr>search_param := Some ''''\<rparr>) =
      get_api_products_part_000 rt db (q\<lparr>search_param := None\<rparr>)"
    by (simp add: get_api_products_part_000_def Let_def search' cong: option.case_cong)
  ultimately show ?thesis by blast
qed

end
